theory Spec2Isabelle
  imports Main "HOL-Library.Word" "HOL-Library.Char_ord" "HOL-Library.List_Lexorder"
begin

unbundle bit_operations_syntax

section \<open>ClangLib: token hashing, translation units, token databases\<close>

text \<open>
  A shallow embedding of the parts of the ClangLib plugin that the verified properties
  are about: \<open>HashToken\<close> and the translation-unit wrapper (translationunit.cpp), the
  code-completion job (clangproxy.h), and the two token databases with their binary
  persistence (tokendatabase.cpp).

  Conventions. A \<open>wxString\<close> is identified with its UTF-8 byte sequence and is a
  \<open>string\<close> (a list of 8-bit characters). A C \<open>int\<close> or \<open>unsigned\<close> is a
  \<open>32 word\<close>. Indexes into a \<open>std::vector\<close> (token ids) are natural numbers.
\<close>

subsection \<open>HashToken (translationunit.cpp)\<close>

text \<open>
  The chunks of a \<open>CXCompletionString\<close>: \<open>clang_getCompletionChunkKind\<close> and
  \<open>clang_getCompletionChunkText\<close>. Only the kind \<open>CXCompletionChunk_TypedText\<close> is
  told apart by the code.
\<close>

datatype CXCompletionChunkKind = CXCompletionChunk_TypedText | CXCompletionChunk_Other

type_synonym CXCompletionString = "(CXCompletionChunkKind \<times> string) list"

text \<open>
  A C string ends at its first NUL byte: the loop \<open>for (; *pCh; ++pCh)\<close> visits
  exactly the bytes before it.
\<close>

definition c_str :: "string \<Rightarrow> string" where
  "c_str s = takeWhile (\<lambda>c. c \<noteq> CHR 0x00) s"

text \<open>
  \<open>hVal ^= *pCh\<close>: the \<open>char\<close> is promoted to \<open>int\<close> and converted to
  \<open>unsigned\<close>. Whether plain \<open>char\<close> is signed is implementation-defined, so it is
  a parameter: a signed \<open>char\<close> is sign-extended, an unsigned one zero-extended.
\<close>

definition char_to_unsigned :: "bool \<Rightarrow> char \<Rightarrow> 32 word" where
  "char_to_unsigned char_signed c =
     (if char_signed then scast (of_char c :: 8 word) else ucast (of_char c :: 8 word))"

text \<open>One step of the inner loop: \<open>hVal ^= *pCh; hVal *= 16777619u;\<close>\<close>

definition hash_step :: "bool \<Rightarrow> 32 word \<Rightarrow> char \<Rightarrow> 32 word" where
  "hash_step char_signed hVal c = (hVal XOR char_to_unsigned char_signed c) * 16777619"

text \<open>The inner loop over the bytes of one chunk.\<close>

fun hash_chars :: "bool \<Rightarrow> 32 word \<Rightarrow> string \<Rightarrow> 32 word" where
  "hash_chars char_signed hVal [] = hVal"
| "hash_chars char_signed hVal (c # cs) = hash_chars char_signed (hash_step char_signed hVal c) cs"

text \<open>\<open>*pCh == '~' ? pCh + 1 : pCh\<close>, read as a C string.\<close>

definition strip_tilde :: "string \<Rightarrow> string" where
  "strip_tilde s = (case c_str s of [] \<Rightarrow> [] | c # cs \<Rightarrow> if c = CHR ''~'' then cs else c # cs)"

text \<open>
  The outer loop over the chunks. The state is \<open>hVal\<close> and the out-parameter
  \<open>identifier\<close>, which a typed-text chunk overwrites.
\<close>

fun HashToken_loop :: "bool \<Rightarrow> CXCompletionString \<Rightarrow> 32 word \<times> string \<Rightarrow> 32 word \<times> string" where
  "HashToken_loop char_signed [] st = st"
| "HashToken_loop char_signed ((kind, str) # chunks) (hVal, identifier) =
     HashToken_loop char_signed chunks
       (hash_chars char_signed hVal (c_str str),
        if kind = CXCompletionChunk_TypedText then strip_tilde str else identifier)"

definition HashToken :: "bool \<Rightarrow> CXCompletionString \<Rightarrow> string \<Rightarrow> 32 word \<times> string" where
  "HashToken char_signed token identifier = HashToken_loop char_signed token (2166136261, identifier)"

text \<open>
  The hash as the specification words it: FNV-1a with basis 2166136261 and
  multiplier 16777619 over the bytes of all chunks, a leading \<open>~\<close> of the typed text
  (the destructor's name) left out of the hashed bytes. FNV-1a XORs every byte into the
  hash as a number from 0 to 255 and multiplies by the prime.
\<close>

definition fnv1a :: "string \<Rightarrow> 32 word" where
  "fnv1a bs = foldl (\<lambda>h c. (h XOR ucast (of_char c :: 8 word)) * 16777619) 2166136261 bs"

definition spec_hashed_bytes :: "CXCompletionString \<Rightarrow> string" where
  "spec_hashed_bytes token =
     concat (map (\<lambda>(kind, str). if kind = CXCompletionChunk_TypedText then strip_tilde str
                                  else c_str str) token)"

definition spec_HashToken :: "CXCompletionString \<Rightarrow> 32 word" where
  "spec_HashToken token = fnv1a (spec_hashed_bytes token)"

text \<open>
  The fold that differs from FNV-1a in one point: every byte is XORed into the hash
  sign-extended from 8 to 32 bits, so that a byte from 0x80 on comes with the upper 24
  bits set.
\<close>

definition fnv1a_signed_char :: "string \<Rightarrow> 32 word" where
  "fnv1a_signed_char bs =
     foldl (\<lambda>h c. (h XOR scast (of_char c :: 8 word)) * 16777619) 2166136261 bs"

text \<open>The bytes the code hashes, and the identifier it derives.\<close>

definition hashed_bytes :: "CXCompletionString \<Rightarrow> string" where
  "hashed_bytes token = concat (map (\<lambda>(kind, str). c_str str) token)"

fun typed_identifier :: "CXCompletionString \<Rightarrow> string \<Rightarrow> string" where
  "typed_identifier [] identifier = identifier"
| "typed_identifier ((kind, str) # chunks) identifier =
     typed_identifier chunks
       (if kind = CXCompletionChunk_TypedText then strip_tilde str else identifier)"

subsection \<open>The translation-unit wrapper (translationunit.cpp)\<close>

text \<open>
  libclang is outside the repository. Handles are opaque numbers, a null pointer is
  \<open>None\<close>, and what a native function answers is an argument of the operation that
  calls it. The calls of the functions named in \<open>native_call\<close>, each of which is
  handed the translation unit or the completion result, are recorded in \<open>native_log\<close>
  in the order in which they are made; every operation below makes its native calls
  behind its test of \<open>m_ClTranslUnit\<close>. Not recorded are the queries for default
  options and what \<open>ExpandDiagnostic\<close> and the AST visitor call while they run.
  \<open>clang_getNullCursor()\<close> takes no argument and is the constant \<open>CXCursor_null\<close>.
  The time stamp \<open>m_LastParsed\<close> and the logger are left out.
\<close>

type_synonym ClFileId = "32 word"
type_synonym CXTranslationUnit = nat
type_synonym CXCodeCompleteResults = nat

datatype native_call =
    clang_reparseTranslationUnit CXTranslationUnit
  | clang_disposeTranslationUnit CXTranslationUnit
  | clang_disposeCodeCompleteResults CXCodeCompleteResults
  | clang_codeCompleteAt CXTranslationUnit
  | clang_getFile CXTranslationUnit
  | clang_getLocation CXTranslationUnit
  | clang_getCursor CXTranslationUnit
  | clang_getInclusions CXTranslationUnit
  | clang_getTranslationUnitCursor CXTranslationUnit
  | clang_getDiagnosticSetFromTU CXTranslationUnit

datatype CXCursor = CXCursor_null | CXCursor_at nat

record ClTranslationUnit =
  m_FileId :: ClFileId
  m_ClTranslUnit :: "CXTranslationUnit option"
  m_LastCC :: "CXCodeCompleteResults option"
  m_LastPos :: "32 word \<times> 32 word"
  native_log :: "native_call list"

definition log_call :: "native_call \<Rightarrow> ClTranslationUnit \<Rightarrow> ClTranslationUnit" where
  "log_call c tu = tu\<lparr>native_log := native_log tu @ [c]\<rparr>"

text \<open>\<open>if (m_LastCC) clang_disposeCodeCompleteResults(m_LastCC);\<close>\<close>

definition dispose_LastCC :: "ClTranslationUnit \<Rightarrow> ClTranslationUnit" where
  "dispose_LastCC tu =
     (case m_LastCC tu of None \<Rightarrow> tu
      | Some cc \<Rightarrow> log_call (clang_disposeCodeCompleteResults cc) tu)"

text \<open>
  \<open>Reparse\<close>; \<open>ret\<close> is what \<open>clang_reparseTranslationUnit\<close> returns.
\<close>

definition Reparse :: "ClTranslationUnit \<Rightarrow> 32 word \<Rightarrow> ClTranslationUnit" where
  "Reparse tu ret =
     (case m_ClTranslUnit tu of
        None \<Rightarrow> tu
      | Some h \<Rightarrow>
          let tu1 = log_call (clang_reparseTranslationUnit h) tu in
          if ret \<noteq> 0
          then (log_call (clang_disposeTranslationUnit h) tu1)\<lparr>m_ClTranslUnit := None\<rparr>
          else (dispose_LastCC tu1)\<lparr>m_LastCC := None\<rparr>)"

text \<open>
  \<open>GetTokenAt\<close>; \<open>cursor\<close> is what \<open>clang_getCursor\<close> answers.
\<close>

definition GetTokenAt ::
  "ClTranslationUnit \<Rightarrow> string \<Rightarrow> 32 word \<times> 32 word \<Rightarrow> CXCursor \<Rightarrow> CXCursor \<times> ClTranslationUnit" where
  "GetTokenAt tu filename location cursor =
     (case m_ClTranslUnit tu of
        None \<Rightarrow> (CXCursor_null, tu)
      | Some h \<Rightarrow>
          (cursor, log_call (clang_getCursor h) (log_call (clang_getLocation h)
                     (log_call (clang_getFile h) tu))))"

text \<open>
  \<open>CodeCompleteAt\<close>; \<open>cc\<close> is what \<open>clang_codeCompleteAt\<close> returns. The
  diagnostics it expands go to a local list that is dropped.
\<close>

definition CodeCompleteAt ::
  "ClTranslationUnit \<Rightarrow> string \<Rightarrow> 32 word \<times> 32 word \<Rightarrow> CXCodeCompleteResults option
     \<Rightarrow> CXCodeCompleteResults option \<times> ClTranslationUnit" where
  "CodeCompleteAt tu complete_filename complete_location cc =
     (case m_ClTranslUnit tu of
        None \<Rightarrow> (None, tu)
      | Some h \<Rightarrow>
          let tu1 = log_call (clang_codeCompleteAt h) (dispose_LastCC tu);
              tu2 = tu1\<lparr>m_LastCC := cc, m_LastPos := complete_location\<rparr>
          in (cc, tu2))"

text \<open>
  \<open>GetDiagnostics\<close>; \<open>expanded\<close> is what \<open>ExpandDiagnosticSet\<close> appends for the
  native diagnostic set.
\<close>

definition GetDiagnostics ::
  "ClTranslationUnit \<Rightarrow> string \<Rightarrow> 'd list \<Rightarrow> 'd list \<Rightarrow> 'd list \<times> ClTranslationUnit" where
  "GetDiagnostics tu filename diagnostics expanded =
     (case m_ClTranslUnit tu of
        None \<Rightarrow> (diagnostics, tu)
      | Some h \<Rightarrow> (diagnostics @ expanded, log_call (clang_getDiagnosticSetFromTU h) tu))"

text \<open>
  \<open>std::unique\<close> on a vector of integers, as the standard library implements it:
  the first element of every run of equal neighbours is moved to the front, and the
  function returns the new logical end. It erases nothing: the vector keeps its size,
  and the places behind the new end keep the values they had.
\<close>

definition std_unique :: "'a list \<Rightarrow> 'a list \<times> nat" where
  "std_unique xs = (remdups_adj xs @ drop (length (remdups_adj xs)) xs, length (remdups_adj xs))"

text \<open>
  \<open>std::sort\<close> on file ids, which are C \<open>int\<close>s and so compared as signed numbers.
\<close>

definition std_sort :: "ClFileId list \<Rightarrow> ClFileId list" where
  "std_sort xs = sort_key sint xs"

text \<open>
  \<open>ProcessAllTokens\<close>. \<open>inclusions\<close> are the file ids that \<open>ClInclusionVisitor\<close>
  pushes while \<open>clang_getInclusions\<close> runs, \<open>scopes\<close> are the function scopes that
  the AST visitor collects. The iterator that \<open>std::unique\<close> returns is discarded.
  The token database that the visitors fill is not part of this model.
\<close>

definition ProcessAllTokens ::
  "ClTranslationUnit \<Rightarrow> ClFileId list \<Rightarrow> 's \<Rightarrow> ClFileId list \<Rightarrow> 's
     \<Rightarrow> (ClFileId list \<times> 's) \<times> ClTranslationUnit" where
  "ProcessAllTokens tu out_includeFileList out_functionScopes inclusions scopes =
     (case m_ClTranslUnit tu of
        None \<Rightarrow> ((out_includeFileList, out_functionScopes), tu)
      | Some h \<Rightarrow>
          let l1 = out_includeFileList @ inclusions;
              l2 = l1 @ [m_FileId tu];
              l3 = std_sort l2;
              l4 = fst (std_unique l3)
          in ((l4, scopes),
              log_call (clang_getTranslationUnitCursor h) (log_call (clang_getInclusions h) tu)))"

text \<open>Operations on a translation unit, to run them in sequence.\<close>

datatype tu_op =
    Op_GetTokenAt string "32 word \<times> 32 word" CXCursor
  | Op_CodeCompleteAt string "32 word \<times> 32 word" "CXCodeCompleteResults option"
  | Op_GetDiagnostics string "nat list" "nat list"
  | Op_ProcessAllTokens "ClFileId list" "nat list" "ClFileId list" "nat list"

datatype tu_result =
    Res_Cursor CXCursor
  | Res_CC "CXCodeCompleteResults option"
  | Res_Diagnostics "nat list"
  | Res_Tokens "ClFileId list" "nat list"

fun run_op :: "tu_op \<Rightarrow> ClTranslationUnit \<Rightarrow> tu_result \<times> ClTranslationUnit" where
  "run_op (Op_GetTokenAt f l c) tu = (case GetTokenAt tu f l c of (r, tu') \<Rightarrow> (Res_Cursor r, tu'))"
| "run_op (Op_CodeCompleteAt f l c) tu = (case CodeCompleteAt tu f l c of (r, tu') \<Rightarrow> (Res_CC r, tu'))"
| "run_op (Op_GetDiagnostics f d e) tu =
     (case GetDiagnostics tu f d e of (r, tu') \<Rightarrow> (Res_Diagnostics r, tu'))"
| "run_op (Op_ProcessAllTokens l s i v) tu =
     (case ProcessAllTokens tu l s i v of ((r, s'), tu') \<Rightarrow> (Res_Tokens r s', tu'))"

text \<open>What an operation returns when there is no unit: its inputs, nothing new.\<close>

fun no_unit_result :: "tu_op \<Rightarrow> tu_result" where
  "no_unit_result (Op_GetTokenAt f l c) = Res_Cursor CXCursor_null"
| "no_unit_result (Op_CodeCompleteAt f l c) = Res_CC None"
| "no_unit_result (Op_GetDiagnostics f d e) = Res_Diagnostics d"
| "no_unit_result (Op_ProcessAllTokens l s i v) = Res_Tokens l s"

fun run_ops :: "tu_op list \<Rightarrow> ClTranslationUnit \<Rightarrow> tu_result list \<times> ClTranslationUnit" where
  "run_ops [] tu = ([], tu)"
| "run_ops (op # ops) tu =
     (case run_op op tu of (r, tu') \<Rightarrow> (case run_ops ops tu' of (rs, tu'') \<Rightarrow> (r # rs, tu'')))"

subsection \<open>CodeCompleteAtJob::Execute (clangproxy.h)\<close>

text \<open>
  The categories that \<open>Execute\<close> names; \<open>tcOther\<close> stands for every other value of
  the enumeration (the \<open>default\<close> branch).
\<close>

datatype ClTokenCategory =
    tcCtorPublic | tcDtorPublic | tcClass | tcFuncPublic | tcVarPublic | tcEnum | tcTypedef
  | tcOther

record ClToken =
  tkn_id :: "32 word"
  category :: ClTokenCategory
  name :: string
  weight :: "32 word"

record CodeCompleteAtJob =
  m_IncludeCtors :: bool
  m_UnsavedFiles :: "(string \<times> string) list"
  m_pResults :: "ClToken list"

text \<open>
  The body of the loop for one candidate. \<open>refine\<close> is what
  \<open>ClangProxy::RefineTokenType\<close> writes into the category it is given by reference.
  For a constructor or destructor with the option off, \<open>continue\<close> goes to the next
  candidate; otherwise the case falls through to the refinement.
\<close>

definition Execute_step ::
  "bool \<Rightarrow> (32 word \<Rightarrow> ClTokenCategory \<Rightarrow> ClTokenCategory) \<Rightarrow> ClToken \<Rightarrow> ClToken" where
  "Execute_step includeCtors refine tkn =
     (case category tkn of
        tcCtorPublic \<Rightarrow>
          if \<not> includeCtors then tkn else tkn\<lparr>category := refine (tkn_id tkn) (category tkn)\<rparr>
      | tcDtorPublic \<Rightarrow>
          if \<not> includeCtors then tkn else tkn\<lparr>category := refine (tkn_id tkn) (category tkn)\<rparr>
      | tcClass \<Rightarrow> tkn\<lparr>category := refine (tkn_id tkn) (category tkn)\<rparr>
      | tcFuncPublic \<Rightarrow> tkn\<lparr>category := refine (tkn_id tkn) (category tkn)\<rparr>
      | tcVarPublic \<Rightarrow> tkn\<lparr>category := refine (tkn_id tkn) (category tkn)\<rparr>
      | tcEnum \<Rightarrow> tkn\<lparr>category := refine (tkn_id tkn) (category tkn)\<rparr>
      | tcTypedef \<Rightarrow> tkn\<lparr>category := refine (tkn_id tkn) (category tkn)\<rparr>
      | tcOther \<Rightarrow> tkn)"

text \<open>
  \<open>Execute\<close>; \<open>results\<close> is the list that \<open>ClangProxy::CodeCompleteAt\<close> fills. The
  loop rewrites the candidates in place, the unsaved files are cleared and the list is
  swapped into \<open>m_pResults\<close>.
\<close>

definition Execute ::
  "CodeCompleteAtJob \<Rightarrow> ClToken list \<Rightarrow> (32 word \<Rightarrow> ClTokenCategory \<Rightarrow> ClTokenCategory)
     \<Rightarrow> CodeCompleteAtJob" where
  "Execute job results refine =
     job\<lparr>m_UnsavedFiles := [], m_pResults := map (Execute_step (m_IncludeCtors job) refine) results\<rparr>"

subsection \<open>ClTreeMap (treemap.h)\<close>

text \<open>
  Modelled from the spec: the member functions of the specialisation \<open>ClTreeMap<int>\<close>,
  which treemap.h only declares. It is a multimap from string keys to integers:
  \<open>Insert\<close> adds one (key, value) association, \<open>Remove(key, value)\<close> removes one,
  \<open>Remove(key)\<close> removes all associations of a key, \<open>GetIdSet\<close> gives the values of an
  exact key as a \<open>std::set<int>\<close> (iterated in ascending order), \<open>GetKeySet\<close> gives the
  keys that have an association as a \<open>std::set<wxString>\<close> (iterated in ascending
  order), and \<open>GetValue(id)\<close> returns \<open>id\<close>. A \<open>std::set\<close> that is only iterated is
  the ascending list of its elements.
\<close>

type_synonym int_treemap = "(string \<times> nat) list"

definition tree_Insert :: "string \<Rightarrow> nat \<Rightarrow> int_treemap \<Rightarrow> int_treemap" where
  "tree_Insert key v t = t @ [(key, v)]"

definition tree_Remove_value :: "string \<Rightarrow> nat \<Rightarrow> int_treemap \<Rightarrow> int_treemap" where
  "tree_Remove_value key v t = filter (\<lambda>kv. kv \<noteq> (key, v)) t"

definition tree_Remove :: "string \<Rightarrow> int_treemap \<Rightarrow> int_treemap" where
  "tree_Remove key t = filter (\<lambda>kv. fst kv \<noteq> key) t"

definition tree_GetIdSet :: "string \<Rightarrow> int_treemap \<Rightarrow> nat list" where
  "tree_GetIdSet key t = sort (remdups (map snd (filter (\<lambda>kv. fst kv = key) t)))"

definition tree_GetKeySet :: "int_treemap \<Rightarrow> string list" where
  "tree_GetKeySet t = sort (remdups (map fst t))"

definition tree_GetValue :: "nat \<Rightarrow> nat" where
  "tree_GetValue i = i"

text \<open>
  The generic \<open>ClTreeMap<_TpVal>\<close>, as treemap.h defines it: the value table \<open>m_Data\<close>
  and the tree from keys to indexes into it.
\<close>

record 'v ClTreeMap =
  m_Tree :: int_treemap
  m_Data :: "'v list"

definition ClTreeMap_empty :: "'v ClTreeMap" where
  "ClTreeMap_empty = \<lparr>m_Tree = [], m_Data = []\<rparr>"

definition ClTreeMap_Insert :: "string \<Rightarrow> 'v \<Rightarrow> 'v ClTreeMap \<Rightarrow> nat \<times> 'v ClTreeMap" where
  "ClTreeMap_Insert key v m =
     (length (m_Data m),
      \<lparr>m_Tree = tree_Insert key (length (m_Data m)) (m_Tree m), m_Data = m_Data m @ [v]\<rparr>)"

definition ClTreeMap_GetIdSet :: "string \<Rightarrow> 'v ClTreeMap \<Rightarrow> nat list" where
  "ClTreeMap_GetIdSet key m = tree_GetIdSet key (m_Tree m)"

definition ClTreeMap_RemoveIdKey :: "string \<Rightarrow> nat \<Rightarrow> 'v ClTreeMap \<Rightarrow> 'v ClTreeMap" where
  "ClTreeMap_RemoveIdKey key i m = m\<lparr>m_Tree := tree_Remove_value key i (m_Tree m)\<rparr>"

definition ClTreeMap_HasValue :: "nat \<Rightarrow> 'v ClTreeMap \<Rightarrow> bool" where
  "ClTreeMap_HasValue i m = (i < length (m_Data m))"

text \<open>
  \<open>GetValue\<close> is \<open>m_Data[id]\<close>, a reference into the table. Reading it out of range is
  undefined in C++; the callers below check \<open>HasValue\<close> or take the id from the tree.
  \<open>ClTreeMap_SetValue\<close> is a write through that reference.
\<close>

definition ClTreeMap_GetValue :: "nat \<Rightarrow> 'v ClTreeMap \<Rightarrow> 'v" where
  "ClTreeMap_GetValue i m = m_Data m ! i"

definition ClTreeMap_SetValue :: "nat \<Rightarrow> 'v \<Rightarrow> 'v ClTreeMap \<Rightarrow> 'v ClTreeMap" where
  "ClTreeMap_SetValue i v m = m\<lparr>m_Data := (m_Data m)[i := v]\<rparr>"

definition ClTreeMap_GetCount :: "'v ClTreeMap \<Rightarrow> nat" where
  "ClTreeMap_GetCount m = length (m_Data m)"

definition ClTreeMap_GetKeySet :: "'v ClTreeMap \<Rightarrow> string list" where
  "ClTreeMap_GetKeySet m = tree_GetKeySet (m_Tree m)"

subsection \<open>Tokens (tokendatabase.h)\<close>

text \<open>
  Modelled from the spec: the declarations of tokendatabase.h, which the sources use but
  do not contain. \<open>ClTokenType\<close> is a bit mask with \<open>ClTokenType_Unknown = 0\<close>;
  \<open>wxNOT_FOUND\<close> is -1. A position is a (line, column) pair, a range a pair of
  positions. Two locations are equal when type, file and range are. The fields of
  \<open>ClAbstractToken\<close> carry the prefix \<open>abs_\<close> here.
\<close>

type_synonym ClTokenType = "32 word"

definition ClTokenType_Unknown :: ClTokenType where
  "ClTokenType_Unknown = 0"

definition wxNOT_FOUND :: "32 word" where
  "wxNOT_FOUND = - 1"

record ClTokenPosition =
  line :: "32 word"
  column :: "32 word"

record ClTokenRange =
  beginLocation :: ClTokenPosition
  endLocation :: ClTokenPosition

record ClIndexTokenLocation =
  tokenType :: ClTokenType
  fileId :: ClFileId
  tokenRange :: ClTokenRange

record ClIndexToken =
  "identifier" :: string
  displayName :: string
  USR :: string
  tokenTypeMask :: ClTokenType
  locationList :: "ClIndexTokenLocation list"
  parentTokenList :: "(string \<times> string) list"
  scope :: "string \<times> string"

text \<open>
  Modelled from the spec: the two constructors of \<open>ClIndexToken\<close>. The default one gives
  a blank token of type \<open>Unknown\<close>; the other one stores its arguments and starts the
  location list with the one location (type, file, range).
\<close>

definition ClIndexToken_default :: ClIndexToken where
  "ClIndexToken_default =
     \<lparr>identifier = [], displayName = [], USR = [], tokenTypeMask = ClTokenType_Unknown,
      locationList = [], parentTokenList = [], scope = ([], [])\<rparr>"

definition ClIndexToken_new ::
  "string \<Rightarrow> string \<Rightarrow> ClFileId \<Rightarrow> string \<Rightarrow> ClTokenType \<Rightarrow> ClTokenRange
     \<Rightarrow> (string \<times> string) list \<Rightarrow> string \<times> string \<Rightarrow> ClIndexToken" where
  "ClIndexToken_new ident nm fId usr tokType rng parents parentScope =
     \<lparr>identifier = ident, displayName = nm, USR = usr, tokenTypeMask = tokType,
      locationList = [\<lparr>tokenType = tokType, fileId = fId, tokenRange = rng\<rparr>],
      parentTokenList = parents, scope = parentScope\<rparr>"

record ClAbstractToken =
  abs_tokenType :: ClTokenType
  abs_fileId :: ClFileId
  abs_range :: ClTokenRange
  abs_identifier :: string
  abs_displayName :: string
  abs_scope :: "string \<times> string"
  abs_tokenHash :: "32 word"
  abs_USR :: string
  abs_parentTokenList :: "(string \<times> string) list"

text \<open>
  Modelled from the spec: the default constructor of \<open>ClAbstractToken\<close>, the blank
  token, whose file id is not-found.
\<close>

definition ClAbstractToken_default :: ClAbstractToken where
  "ClAbstractToken_default =
     \<lparr>abs_tokenType = ClTokenType_Unknown, abs_fileId = wxNOT_FOUND,
      abs_range = \<lparr>beginLocation = \<lparr>line = 0, column = 0\<rparr>, endLocation = \<lparr>line = 0, column = 0\<rparr>\<rparr>,
      abs_identifier = [], abs_displayName = [], abs_scope = ([], []), abs_tokenHash = 0,
      abs_USR = [], abs_parentTokenList = []\<rparr>"

text \<open>\<open>wxString::Format(wxT("%d"), fileId)\<close>: the signed decimal numeral.\<close>

fun decimal :: "nat \<Rightarrow> string" where
  "decimal n = (if n < 10 then [''0123456789'' ! n]
                else decimal (n div 10) @ [''0123456789'' ! (n mod 10)])"

declare decimal.simps [simp del]

definition Format_d :: "32 word \<Rightarrow> string" where
  "Format_d w = (if sint w < 0 then CHR ''-'' # decimal (nat (- sint w)) else decimal (nat (sint w)))"

subsection \<open>ClTokenIndexDatabase (tokendatabase.cpp)\<close>

text \<open>
  The project-wide index: the filename table, the tokens keyed by identifier, and the
  tree from the decimal file id to the ids of the tokens seen in that file. The mutex is
  left out: every operation here runs as a whole.
\<close>

record ClFilenameEntry =
  filename :: string
  timestamp :: "64 word"

record ClTokenIndexDatabase =
  m_FileDB :: "ClFilenameEntry ClTreeMap"
  m_pIndexTokenMap :: "ClIndexToken ClTreeMap"
  m_pFileTokens :: int_treemap
  m_bModified :: bool

definition ClTokenIndexDatabase_new :: ClTokenIndexDatabase where
  "ClTokenIndexDatabase_new =
     \<lparr>m_FileDB = ClTreeMap_empty, m_pIndexTokenMap = ClTreeMap_empty, m_pFileTokens = [],
      m_bModified = False\<rparr>"

text \<open>
  Modelled from the spec: \<open>ClTokenIndexDatabase::Clear\<close>, defined in tokendatabase.h.
  It discards all tokens and leaves the filename table untouched.
\<close>

definition ClTokenIndexDatabase_Clear :: "ClTokenIndexDatabase \<Rightarrow> ClTokenIndexDatabase" where
  "ClTokenIndexDatabase_Clear db = db\<lparr>m_pIndexTokenMap := ClTreeMap_empty, m_pFileTokens := []\<rparr>"

text \<open>\<open>LookupTokenFileList\<close>: the loop over the ids of the identifier.\<close>

fun LookupTokenFileList_loop ::
  "ClTokenIndexDatabase \<Rightarrow> string \<Rightarrow> ClTokenType \<Rightarrow> nat list \<Rightarrow> ClFileId set \<Rightarrow> ClFileId set" where
  "LookupTokenFileList_loop db usr typeMask [] retList = retList"
| "LookupTokenFileList_loop db usr typeMask (it # ids) retList =
     (let token = ClTreeMap_GetValue it (m_pIndexTokenMap db) in
      LookupTokenFileList_loop db usr typeMask ids
        (if (tokenTypeMask token AND typeMask) = typeMask
            \<and> (usr = [] \<or> USR token = [] \<or> usr = USR token)
         then retList \<union> set (map fileId (locationList token))
         else retList))"

definition LookupTokenFileList ::
  "ClTokenIndexDatabase \<Rightarrow> string \<Rightarrow> string \<Rightarrow> ClTokenType \<Rightarrow> ClFileId set" where
  "LookupTokenFileList db ident usr typeMask =
     LookupTokenFileList_loop db usr typeMask (ClTreeMap_GetIdSet ident (m_pIndexTokenMap db)) {}"

text \<open>
  \<open>LookupTokenPosition\<close> (the overload that gives a position): the inner loop finds the
  first location of the token with the type bits and the file; the outer loop returns at
  the first token that has one. \<open>None\<close> is the result \<open>false\<close>.
\<close>

definition LookupTokenPosition_location ::
  "ClFileId \<Rightarrow> ClTokenType \<Rightarrow> ClIndexTokenLocation list \<Rightarrow> ClIndexTokenLocation option" where
  "LookupTokenPosition_location fId tokenTypeMask' locs =
     find (\<lambda>l. (tokenType l AND tokenTypeMask') = tokenTypeMask' \<and> fileId l = fId) locs"

fun LookupTokenPosition_loop ::
  "ClTokenIndexDatabase \<Rightarrow> ClFileId \<Rightarrow> string \<Rightarrow> ClTokenType \<Rightarrow> nat list \<Rightarrow> ClTokenPosition option" where
  "LookupTokenPosition_loop db fId usr tokenTypeMask' [] = None"
| "LookupTokenPosition_loop db fId usr tokenTypeMask' (it # ids) =
     (let token = ClTreeMap_GetValue it (m_pIndexTokenMap db) in
      if (tokenTypeMask token AND tokenTypeMask') = tokenTypeMask'
      then (if usr = [] \<or> usr = USR token
            then (case LookupTokenPosition_location fId tokenTypeMask' (locationList token) of
                    Some l \<Rightarrow> Some (beginLocation (tokenRange l))
                  | None \<Rightarrow> LookupTokenPosition_loop db fId usr tokenTypeMask' ids)
            else LookupTokenPosition_loop db fId usr tokenTypeMask' ids)
      else LookupTokenPosition_loop db fId usr tokenTypeMask' ids)"

definition LookupTokenPosition ::
  "ClTokenIndexDatabase \<Rightarrow> string \<Rightarrow> ClFileId \<Rightarrow> string \<Rightarrow> ClTokenType \<Rightarrow> ClTokenPosition option" where
  "LookupTokenPosition db ident fId usr tokenTypeMask' =
     LookupTokenPosition_loop db fId usr tokenTypeMask'
       (ClTreeMap_GetIdSet ident (m_pIndexTokenMap db))"

text \<open>
  \<open>UpdateToken\<close>. The loop stops at the first token of the identifier whose USR is the
  given one; \<open>UpdateToken_match\<close> is that search, \<open>UpdateToken_merge\<close> the body run on
  the token found (through the reference into the table).
\<close>

fun UpdateToken_match :: "ClTokenIndexDatabase \<Rightarrow> string \<Rightarrow> nat list \<Rightarrow> nat option" where
  "UpdateToken_match db usr [] = None"
| "UpdateToken_match db usr (it # ids) =
     (if USR (ClTreeMap_GetValue it (m_pIndexTokenMap db)) = usr then Some it
      else UpdateToken_match db usr ids)"

definition push_back_unless_found :: "'a list \<Rightarrow> 'a \<Rightarrow> 'a list" where
  "push_back_unless_found xs x = (if x \<in> set xs then xs else xs @ [x])"

definition UpdateToken_merge ::
  "ClIndexToken \<Rightarrow> ClFileId \<Rightarrow> ClTokenType \<Rightarrow> ClTokenRange \<Rightarrow> (string \<times> string) list \<Rightarrow> ClIndexToken" where
  "UpdateToken_merge token fId tokType rng overrideTokenList =
     token\<lparr>tokenTypeMask := tokenTypeMask token OR tokType,
           locationList := push_back_unless_found (locationList token)
                             \<lparr>tokenType = tokType, fileId = fId, tokenRange = rng\<rparr>,
           parentTokenList := foldl push_back_unless_found (parentTokenList token) overrideTokenList\<rparr>"

definition UpdateToken ::
  "ClTokenIndexDatabase \<Rightarrow> string \<Rightarrow> string \<Rightarrow> ClFileId \<Rightarrow> string \<Rightarrow> ClTokenType \<Rightarrow> ClTokenRange
     \<Rightarrow> (string \<times> string) list \<Rightarrow> string \<times> string \<Rightarrow> ClTokenIndexDatabase" where
  "UpdateToken db ident dispName fId usr tokType rng overrideTokenList scp =
     (case UpdateToken_match db usr (ClTreeMap_GetIdSet ident (m_pIndexTokenMap db)) of
        Some it \<Rightarrow>
          let token = ClTreeMap_GetValue it (m_pIndexTokenMap db);
              fid = Format_d fId
          in db\<lparr>m_pIndexTokenMap :=
                   ClTreeMap_SetValue it (UpdateToken_merge token fId tokType rng overrideTokenList)
                     (m_pIndexTokenMap db),
                 m_pFileTokens := tree_Insert fid it (tree_Remove_value fid it (m_pFileTokens db)),
                 m_bModified := True\<rparr>
      | None \<Rightarrow>
          (case ClTreeMap_Insert ident
                  (ClIndexToken_new ident dispName fId usr tokType rng overrideTokenList scp)
                  (m_pIndexTokenMap db) of
             (i, m) \<Rightarrow>
               db\<lparr>m_pIndexTokenMap := m,
                   m_pFileTokens := tree_Insert (Format_d fId) i (m_pFileTokens db),
                   m_bModified := True\<rparr>))"

text \<open>
  \<open>RemoveFileTokens\<close>, the loop over one location list. \<open>erase\<close> returns the iterator
  to the element behind the erased one; if that is the end the loop breaks, otherwise
  the \<open>++itLoc\<close> of the \<open>for\<close> statement steps over that element without looking at it.
\<close>

fun RemoveFileTokens_erase :: "ClFileId \<Rightarrow> ClIndexTokenLocation list \<Rightarrow> ClIndexTokenLocation list" where
  "RemoveFileTokens_erase fId [] = []"
| "RemoveFileTokens_erase fId (l # ls) =
     (if fileId l = fId
      then (case ls of [] \<Rightarrow> [] | l' # ls' \<Rightarrow> l' # RemoveFileTokens_erase fId ls')
      else l # RemoveFileTokens_erase fId ls)"

fun RemoveFileTokens_loop ::
  "ClFileId \<Rightarrow> nat list \<Rightarrow> ClIndexToken ClTreeMap \<Rightarrow> ClIndexToken ClTreeMap" where
  "RemoveFileTokens_loop fId [] m = m"
| "RemoveFileTokens_loop fId (it # ids) m =
     (if \<not> ClTreeMap_HasValue it m then RemoveFileTokens_loop fId ids m
      else let tok = ClTreeMap_GetValue (tree_GetValue it) m in
           RemoveFileTokens_loop fId ids
             (ClTreeMap_SetValue (tree_GetValue it)
                (tok\<lparr>locationList := RemoveFileTokens_erase fId (locationList tok)\<rparr>) m))"

definition RemoveFileTokens :: "ClTokenIndexDatabase \<Rightarrow> ClFileId \<Rightarrow> ClTokenIndexDatabase" where
  "RemoveFileTokens db fId =
     (let key = Format_d fId;
          tokenList = tree_GetIdSet key (m_pFileTokens db)
      in db\<lparr>m_pIndexTokenMap := RemoveFileTokens_loop fId tokenList (m_pIndexTokenMap db),
             m_pFileTokens := tree_Remove key (m_pFileTokens db)\<rparr>)"

text \<open>\<open>AddToken\<close>: an insertion without a look at the USR, skipped for an empty identifier.\<close>

definition AddToken_file :: "nat \<Rightarrow> int_treemap \<Rightarrow> ClIndexTokenLocation \<Rightarrow> int_treemap" where
  "AddToken_file i t l =
     tree_Insert (Format_d (fileId l)) i (tree_Remove_value (Format_d (fileId l)) i t)"

definition AddToken :: "ClTokenIndexDatabase \<Rightarrow> string \<Rightarrow> ClIndexToken \<Rightarrow> ClTokenIndexDatabase" where
  "AddToken db ident token =
     (if length ident > 0
      then (case ClTreeMap_Insert ident token (m_pIndexTokenMap db) of
              (i, m) \<Rightarrow>
                db\<lparr>m_pIndexTokenMap := m,
                    m_pFileTokens := foldl (AddToken_file i) (m_pFileTokens db) (locationList token),
                    m_bModified := True\<rparr>)
      else db)"

subsection \<open>ClTokenDatabase (tokendatabase.cpp)\<close>

text \<open>
  The token table of one translation unit. Its tree from file ids to token ids is the
  member \<open>m_pFileTokens\<close> of \<open>ClTokenDatabase\<close>, named \<open>tdb_pFileTokens\<close> here. The
  pointer to the index database plays no part in the operations below.

  \<open>assert\<close> aborts unless the build defines \<open>NDEBUG\<close>, which is the parameter
  \<open>ndebug\<close>. An index outside the table is undefined behaviour in C++ and the error
  \<open>OutOfRange\<close> here.
\<close>

record ClTokenDatabase =
  m_pTokens :: "ClAbstractToken ClTreeMap"
  tdb_pFileTokens :: int_treemap

datatype tdb_error = AssertionFailed | OutOfRange

definition ClTokenDatabase_new :: ClTokenDatabase where
  "ClTokenDatabase_new = \<lparr>m_pTokens = ClTreeMap_empty, tdb_pFileTokens = []\<rparr>"

fun GetTokenId_loop ::
  "ClTokenDatabase \<Rightarrow> ClFileId \<Rightarrow> ClTokenType \<Rightarrow> 32 word \<Rightarrow> nat list \<Rightarrow> nat option" where
  "GetTokenId_loop db fId tokType tokenHash [] = None"
| "GetTokenId_loop db fId tokType tokenHash (itr # ids) =
     (if ClTreeMap_HasValue itr (m_pTokens db)
      then (let tok = ClTreeMap_GetValue itr (m_pTokens db) in
            if abs_tokenHash tok = tokenHash
               \<and> (abs_tokenType tok = tokType \<or> tokType = ClTokenType_Unknown)
               \<and> (abs_fileId tok = fId \<or> fId = wxNOT_FOUND)
            then Some itr
            else GetTokenId_loop db fId tokType tokenHash ids)
      else GetTokenId_loop db fId tokType tokenHash ids)"

text \<open>\<open>GetTokenId\<close>; \<open>None\<close> is \<open>wxNOT_FOUND\<close>.\<close>

definition GetTokenId ::
  "ClTokenDatabase \<Rightarrow> string \<Rightarrow> ClFileId \<Rightarrow> ClTokenType \<Rightarrow> 32 word \<Rightarrow> nat option" where
  "GetTokenId db ident fId tokType tokenHash =
     GetTokenId_loop db fId tokType tokenHash (ClTreeMap_GetIdSet ident (m_pTokens db))"

definition InsertToken :: "ClTokenDatabase \<Rightarrow> ClAbstractToken \<Rightarrow> nat \<times> ClTokenDatabase" where
  "InsertToken db token =
     (case GetTokenId db (abs_identifier token) (abs_fileId token) (abs_tokenType token)
             (abs_tokenHash token) of
        Some tId \<Rightarrow> (tId, db)
      | None \<Rightarrow>
          (case ClTreeMap_Insert (abs_identifier token) token (m_pTokens db) of
             (tId, m) \<Rightarrow>
               (tId, \<lparr>m_pTokens = m,
                      tdb_pFileTokens = tree_Insert (Format_d (abs_fileId token)) tId
                                          (tdb_pFileTokens db)\<rparr>)))"

definition GetToken :: "bool \<Rightarrow> ClTokenDatabase \<Rightarrow> nat \<Rightarrow> tdb_error + ClAbstractToken" where
  "GetToken ndebug db tId =
     (if ClTreeMap_HasValue tId (m_pTokens db) then Inr (ClTreeMap_GetValue tId (m_pTokens db))
      else if ndebug then Inl OutOfRange else Inl AssertionFailed)"

text \<open>
  \<open>ClTokenDatabase::UpdateToken\<close>. \<open>tokenRef\<close> is declared as
  \<open>ClAbstractToken tokenRef = m_pTokens->GetValue(freeTokenId);\<close> and so is a copy of
  the slot: the five assignments to its fields change the local \<open>tokenRef'\<close>, which is
  dropped at the end of the function.
\<close>

definition ClTokenDatabase_UpdateToken ::
  "bool \<Rightarrow> ClTokenDatabase \<Rightarrow> nat \<Rightarrow> ClAbstractToken \<Rightarrow> tdb_error + ClTokenDatabase" where
  "ClTokenDatabase_UpdateToken ndebug db freeTokenId token =
     (if \<not> ClTreeMap_HasValue freeTokenId (m_pTokens db) then Inl OutOfRange
      else
        let tokenRef = ClTreeMap_GetValue freeTokenId (m_pTokens db);
            tokens1 = ClTreeMap_RemoveIdKey (abs_identifier tokenRef) freeTokenId (m_pTokens db)
        in if \<not> ndebug \<and> abs_fileId tokenRef \<noteq> wxNOT_FOUND then Inl AssertionFailed
           else
             let tokenRef' = tokenRef\<lparr>abs_fileId := abs_fileId token,
                                      abs_identifier := abs_identifier token,
                                      abs_range := abs_range token,
                                      abs_tokenHash := abs_tokenHash token,
                                      abs_tokenType := abs_tokenType token\<rparr>;
                 filen = Format_d (abs_fileId token)
             in Inr \<lparr>m_pTokens = tokens1,
                     tdb_pFileTokens = tree_Insert filen freeTokenId (tdb_pFileTokens db)\<rparr>)"

definition RemoveToken :: "bool \<Rightarrow> ClTokenDatabase \<Rightarrow> nat \<Rightarrow> tdb_error + ClTokenDatabase" where
  "RemoveToken ndebug db tokenId =
     (case GetToken ndebug db tokenId of
        Inl e \<Rightarrow> Inl e
      | Inr oldToken \<Rightarrow>
          let key = Format_d (abs_fileId oldToken);
              db1 = db\<lparr>tdb_pFileTokens := tree_Remove_value key tokenId (tdb_pFileTokens db)\<rparr>
          in ClTokenDatabase_UpdateToken ndebug db1 tokenId ClAbstractToken_default)"

subsection \<open>Notions used in the statements about the index database\<close>

text \<open>
  The token that \<open>UpdateToken\<close> works on for an identifier and a USR: the one its search
  finds.
\<close>

definition UpdateToken_matched :: "ClTokenIndexDatabase \<Rightarrow> string \<Rightarrow> string \<Rightarrow> ClIndexToken option" where
  "UpdateToken_matched db ident usr =
     map_option (\<lambda>it. ClTreeMap_GetValue it (m_pIndexTokenMap db))
       (UpdateToken_match db usr (ClTreeMap_GetIdSet ident (m_pIndexTokenMap db)))"

text \<open>
  Every id in the tree of a \<open>ClTreeMap\<close> is an index into its table: \<open>Insert\<close> is the
  only operation that adds an id, and it adds the index of the value it appends.
\<close>

definition ClTreeMap_ids_valid :: "'v ClTreeMap \<Rightarrow> bool" where
  "ClTreeMap_ids_valid m = (\<forall>kv \<in> set (m_Tree m). snd kv < length (m_Data m))"

subsection \<open>Streams (wxWidgets)\<close>

text \<open>
  The stream classes are outside the repository. An output stream is the list of the
  bytes written to it. An input stream is the list of the bytes not yet read and its
  end-of-file state: \<open>Read\<close> takes up to \<open>n\<close> bytes, \<open>LastRead\<close> is the number of
  bytes it took, and a \<open>Read\<close> of one byte or more that finds fewer bytes than it asks
  for leaves the stream at end of file, where \<open>CanRead\<close> is false.
\<close>

type_synonym byte = "8 word"

record wxInputStream =
  in_data :: "byte list"
  in_eof :: bool

definition wxInputStream_of :: "byte list \<Rightarrow> wxInputStream" where
  "wxInputStream_of bs = \<lparr>in_data = bs, in_eof = False\<rparr>"

definition CanRead :: "wxInputStream \<Rightarrow> bool" where
  "CanRead s = (\<not> in_eof s)"

definition stream_Read :: "nat \<Rightarrow> wxInputStream \<Rightarrow> byte list \<times> wxInputStream" where
  "stream_Read n s =
     (take n (in_data s),
      \<lparr>in_data = drop n (in_data s),
       in_eof = (if n = 0 then in_eof s else length (in_data s) < n)\<rparr>)"

text \<open>
  A read function either gives a value and the stream behind it, or fails:
  \<open>ReadFailed\<close> where the source returns \<open>false\<close>, \<open>Undefined\<close> where the C++ has no
  defined behaviour (a buffer of negative size, a string made from bytes never written).
\<close>

datatype read_error = ReadFailed | Undefined

definition rd_bind :: "read_error + 'a \<Rightarrow> ('a \<Rightarrow> read_error + 'b) \<Rightarrow> read_error + 'b" where
  "rd_bind r f = (case r of Inl e \<Rightarrow> Inl e | Inr a \<Rightarrow> f a)"

subsection \<open>Reading and writing integers and strings (tokendatabase.cpp)\<close>

text \<open>
  \<open>out.Write(&val, sizeof(val))\<close> writes the object representation of the integer: the
  bytes in native order, which is taken to be little-endian here (the source notes that
  it does not care about endianness).
\<close>

definition int_bytes :: "32 word \<Rightarrow> byte list" where
  "int_bytes w = [ucast w, ucast (drop_bit 8 w), ucast (drop_bit 16 w), ucast (drop_bit 24 w)]"

definition bytes_int :: "byte list \<Rightarrow> 32 word" where
  "bytes_int bs =
     ucast (bs ! 0) OR push_bit 8 (ucast (bs ! 1)) OR push_bit 16 (ucast (bs ! 2))
       OR push_bit 24 (ucast (bs ! 3))"

definition longlong_bytes :: "64 word \<Rightarrow> byte list" where
  "longlong_bytes w =
     [ucast w, ucast (drop_bit 8 w), ucast (drop_bit 16 w), ucast (drop_bit 24 w),
      ucast (drop_bit 32 w), ucast (drop_bit 40 w), ucast (drop_bit 48 w), ucast (drop_bit 56 w)]"

definition bytes_longlong :: "byte list \<Rightarrow> 64 word" where
  "bytes_longlong bs =
     ucast (bs ! 0) OR push_bit 8 (ucast (bs ! 1)) OR push_bit 16 (ucast (bs ! 2))
       OR push_bit 24 (ucast (bs ! 3)) OR push_bit 32 (ucast (bs ! 4))
       OR push_bit 40 (ucast (bs ! 5)) OR push_bit 48 (ucast (bs ! 6))
       OR push_bit 56 (ucast (bs ! 7))"

definition WriteInt :: "32 word \<Rightarrow> byte list" where
  "WriteInt val = int_bytes val"

definition WriteLongLong :: "64 word \<Rightarrow> byte list" where
  "WriteLongLong val = longlong_bytes val"

text \<open>
  \<open>WriteString\<close> gets a \<open>const char*\<close> and measures it with \<open>strlen\<close>: it writes the
  bytes before the first NUL, after their number.
\<close>

definition WriteString :: "string \<Rightarrow> byte list" where
  "WriteString str = WriteInt (of_nat (length (c_str str))) @ map of_char (c_str str)"

definition ReadInt :: "wxInputStream \<Rightarrow> read_error + 32 word \<times> wxInputStream" where
  "ReadInt s =
     (if \<not> CanRead s then Inl ReadFailed
      else case stream_Read 4 s of
             (bs, s') \<Rightarrow> if length bs \<noteq> 4 then Inl ReadFailed else Inr (bytes_int bs, s'))"

definition ReadLongLong :: "wxInputStream \<Rightarrow> read_error + 64 word \<times> wxInputStream" where
  "ReadLongLong s =
     (if \<not> CanRead s then Inl ReadFailed
      else case stream_Read 8 s of
             (bs, s') \<Rightarrow> if length bs \<noteq> 8 then Inl ReadFailed else Inr (bytes_longlong bs, s'))"

text \<open>
  \<open>ReadString\<close>. The length is a signed \<open>int\<close>; the buffer \<open>char buffer[len + 1]\<close> has
  no defined size for a negative one. The bytes read are not counted, so after a short
  read the string is made from a buffer that was never filled. \<open>wxString::FromUTF8\<close>
  reads the buffer as a C string.
\<close>

definition ReadString :: "wxInputStream \<Rightarrow> read_error + string \<times> wxInputStream" where
  "ReadString s =
     rd_bind (ReadInt s) (\<lambda>(len, s1).
       if len = 0 then Inr ([], s1)
       else if \<not> CanRead s1 then Inl ReadFailed
       else if sint len < 0 then Inl Undefined
       else case stream_Read (nat (sint len)) s1 of
              (buffer, s2) \<Rightarrow>
                if length buffer < nat (sint len) then Inl Undefined
                else Inr (c_str (map (\<lambda>b. char_of (unat b)) buffer), s2))"

subsection \<open>ClIndexToken::WriteOut and ClIndexToken::ReadIn\<close>

definition WriteOut_location :: "ClIndexTokenLocation \<Rightarrow> byte list" where
  "WriteOut_location l =
     WriteInt (tokenType l) @ WriteInt (fileId l)
     @ WriteInt (line (beginLocation (tokenRange l))) @ WriteInt (column (beginLocation (tokenRange l)))
     @ WriteInt (line (endLocation (tokenRange l))) @ WriteInt (column (endLocation (tokenRange l)))"

definition WriteOut_parent :: "string \<times> string \<Rightarrow> byte list" where
  "WriteOut_parent p = WriteString (fst p) @ WriteString (snd p)"

definition ClIndexToken_WriteOut :: "ClIndexToken \<Rightarrow> byte list" where
  "ClIndexToken_WriteOut token =
     WriteString (identifier token) @ WriteString (displayName token) @ WriteString (USR token)
     @ WriteInt (of_nat (length (locationList token)))
     @ concat (map WriteOut_location (locationList token))
     @ WriteInt (of_nat (length (parentTokenList token)))
     @ concat (map WriteOut_parent (parentTokenList token))
     @ WriteString (fst (scope token)) @ WriteString (snd (scope token))"

text \<open>
  The two loops of \<open>ClIndexToken::ReadIn\<close>, run \<open>(unsigned int)val\<close> times. The first
  one also ORs the type of each location into \<open>token.tokenTypeMask\<close>.
\<close>

fun ReadIn_locations ::
  "nat \<Rightarrow> ClIndexToken \<Rightarrow> wxInputStream \<Rightarrow> read_error + ClIndexToken \<times> wxInputStream" where
  "ReadIn_locations 0 token s = Inr (token, s)"
| "ReadIn_locations (Suc n) token s =
     rd_bind (ReadInt s) (\<lambda>(typ, s1).
     rd_bind (ReadInt s1) (\<lambda>(fId, s2).
     rd_bind (ReadInt s2) (\<lambda>(beginLine, s3).
     rd_bind (ReadInt s3) (\<lambda>(beginColumn, s4).
     rd_bind (ReadInt s4) (\<lambda>(endLine, s5).
     rd_bind (ReadInt s5) (\<lambda>(endColumn, s6).
       ReadIn_locations n
         (token\<lparr>locationList := locationList token @
                   [\<lparr>tokenType = typ, fileId = fId,
                     tokenRange = \<lparr>beginLocation = \<lparr>line = beginLine, column = beginColumn\<rparr>,
                                   endLocation = \<lparr>line = endLine, column = endColumn\<rparr>\<rparr>\<rparr>],
                 tokenTypeMask := tokenTypeMask token OR typ\<rparr>)
         s6))))))"

fun ReadIn_parents ::
  "nat \<Rightarrow> ClIndexToken \<Rightarrow> wxInputStream \<Rightarrow> read_error + ClIndexToken \<times> wxInputStream" where
  "ReadIn_parents 0 token s = Inr (token, s)"
| "ReadIn_parents (Suc n) token s =
     rd_bind (ReadString s) (\<lambda>(ident, s1).
     rd_bind (ReadString s1) (\<lambda>(usr, s2).
       ReadIn_parents n (token\<lparr>parentTokenList := parentTokenList token @ [(ident, usr)]\<rparr>) s2))"

text \<open>
  \<open>ClIndexToken::ReadIn\<close> works on the token it is given by reference: it clears the two
  lists and overwrites the strings, and leaves \<open>tokenTypeMask\<close> as it finds it.
\<close>

definition ClIndexToken_ReadIn ::
  "ClIndexToken \<Rightarrow> wxInputStream \<Rightarrow> read_error + ClIndexToken \<times> wxInputStream" where
  "ClIndexToken_ReadIn token s =
     rd_bind (ReadString s) (\<lambda>(ident, s1).
     rd_bind (ReadString s1) (\<lambda>(dispName, s2).
     rd_bind (ReadString s2) (\<lambda>(usr, s3).
     rd_bind (ReadInt s3) (\<lambda>(val, s4).
     rd_bind (ReadIn_locations (unat val)
                (token\<lparr>locationList := [], parentTokenList := [], identifier := ident,
                        displayName := dispName, USR := usr\<rparr>) s4) (\<lambda>(token1, s5).
     rd_bind (ReadInt s5) (\<lambda>(val', s6).
     rd_bind (ReadIn_parents (unat val') token1 s6) (\<lambda>(token2, s7).
     rd_bind (ReadString s7) (\<lambda>(scope1, s8).
     rd_bind (ReadString s8) (\<lambda>(scope2, s9).
       Inr (token2\<lparr>scope := (scope1, scope2)\<rparr>, s9))))))))))"

subsection \<open>ClFilenameDatabase::WriteOut and ClFilenameDatabase::ReadIn\<close>

text \<open>
  A \<open>wxDateTime\<close> is its 64-bit value; the invalid date is the least one. \<open>WriteOut\<close>
  writes 0 for it.
\<close>

definition wxInvalidDateTime :: "64 word" where
  "wxInvalidDateTime = push_bit 63 1"

definition WriteOut_filename :: "ClFilenameEntry \<Rightarrow> byte list" where
  "WriteOut_filename entry =
     WriteString (filename entry)
     @ WriteLongLong (if timestamp entry \<noteq> wxInvalidDateTime then timestamp entry else 0)"

definition ClFilenameDatabase_WriteOut :: "ClFilenameEntry ClTreeMap \<Rightarrow> byte list" where
  "ClFilenameDatabase_WriteOut m =
     WriteInt (of_nat (ClTreeMap_GetCount m)) @ concat (map WriteOut_filename (m_Data m))"

text \<open>
  A loop that changes a database returns the database as the loop left it, with the
  stream behind what it read or the failure that stopped it.
\<close>

fun ReadIn_filenames ::
  "nat \<Rightarrow> ClFilenameEntry ClTreeMap \<Rightarrow> wxInputStream
     \<Rightarrow> ClFilenameEntry ClTreeMap \<times> (read_error + wxInputStream)" where
  "ReadIn_filenames 0 m s = (m, Inr s)"
| "ReadIn_filenames (Suc n) m s =
     (case ReadString s of
        Inl e \<Rightarrow> (m, Inl e)
      | Inr (fname, s1) \<Rightarrow>
          (case ReadLongLong s1 of
             Inl e \<Rightarrow> (m, Inl e)
           | Inr (ts, s2) \<Rightarrow>
               ReadIn_filenames n
                 (snd (ClTreeMap_Insert fname \<lparr>filename = fname, timestamp = ts\<rparr> m)) s2))"

text \<open>The loop \<open>for (i = 0; i < packetCount; ++i)\<close> compares signed integers.\<close>

definition ClFilenameDatabase_ReadIn ::
  "ClFilenameEntry ClTreeMap \<Rightarrow> wxInputStream
     \<Rightarrow> ClFilenameEntry ClTreeMap \<times> (read_error + wxInputStream)" where
  "ClFilenameDatabase_ReadIn m s =
     (case ReadInt s of
        Inl e \<Rightarrow> (m, Inl e)
      | Inr (packetCount, s1) \<Rightarrow> ReadIn_filenames (nat (sint packetCount)) m s1)"

subsection \<open>ClTokenIndexDatabase::WriteOut and ClTokenIndexDatabase::ReadIn\<close>

datatype ClTokenPacketType = ClTokenPacketType_filenames | ClTokenPacketType_tokens

definition packet_type :: "ClTokenPacketType \<Rightarrow> 32 word" where
  "packet_type p = (case p of ClTokenPacketType_filenames \<Rightarrow> 1 | ClTokenPacketType_tokens \<Rightarrow> 2)"

definition WriteOut_bucket :: "ClIndexToken ClTreeMap \<Rightarrow> string \<Rightarrow> byte list" where
  "WriteOut_bucket m key =
     WriteString key
     @ WriteInt (of_nat (length (ClTreeMap_GetIdSet key m)))
     @ concat (map (\<lambda>it. ClIndexToken_WriteOut (ClTreeMap_GetValue it m)) (ClTreeMap_GetIdSet key m))"

text \<open>
  \<open>WriteOut\<close>; \<open>major\<close> and \<open>minor\<close> are \<open>CINDEX_VERSION_MAJOR\<close> and
  \<open>CINDEX_VERSION_MINOR\<close> of the libclang headers. Every write function returns
  \<open>true\<close>, so \<open>WriteOut\<close> does.
\<close>

definition WriteOut :: "32 word \<Rightarrow> 32 word \<Rightarrow> ClTokenIndexDatabase \<Rightarrow> bool \<times> byte list" where
  "WriteOut major minor tokenDatabase =
     (True,
      map of_char ''ClDb'' @ WriteInt 5 @ WriteInt major @ WriteInt minor
      @ WriteInt (packet_type ClTokenPacketType_filenames)
      @ ClFilenameDatabase_WriteOut (m_FileDB tokenDatabase)
      @ WriteInt (packet_type ClTokenPacketType_tokens)
      @ WriteInt (of_nat (length (ClTreeMap_GetKeySet (m_pIndexTokenMap tokenDatabase))))
      @ concat (map (WriteOut_bucket (m_pIndexTokenMap tokenDatabase))
                  (ClTreeMap_GetKeySet (m_pIndexTokenMap tokenDatabase)))
      @ WriteInt 0)"

text \<open>
  The loop over the tokens of one identifier. The variable \<open>token\<close> is declared before
  the loop and handed to \<open>ClIndexToken::ReadIn\<close> in every round.
\<close>

fun ReadIn_bucket ::
  "nat \<Rightarrow> string \<Rightarrow> ClIndexToken \<Rightarrow> ClTokenIndexDatabase \<Rightarrow> wxInputStream
     \<Rightarrow> ClTokenIndexDatabase \<times> (read_error + wxInputStream)" where
  "ReadIn_bucket 0 ident token db s = (db, Inr s)"
| "ReadIn_bucket (Suc n) ident token db s =
     (case ClIndexToken_ReadIn token s of
        Inl e \<Rightarrow> (db, Inl e)
      | Inr (token', s') \<Rightarrow> ReadIn_bucket n ident token' (AddToken db ident token') s')"

fun ReadIn_tokens ::
  "nat \<Rightarrow> ClTokenIndexDatabase \<Rightarrow> wxInputStream
     \<Rightarrow> ClTokenIndexDatabase \<times> (read_error + wxInputStream)" where
  "ReadIn_tokens 0 db s = (db, Inr s)"
| "ReadIn_tokens (Suc n) db s =
     (case ReadString s of
        Inl e \<Rightarrow> (db, Inl e)
      | Inr (ident, s1) \<Rightarrow>
          (case ReadInt s1 of
             Inl e \<Rightarrow> (db, Inl e)
           | Inr (tokenCount, s2) \<Rightarrow>
               (case ReadIn_bucket (nat (sint tokenCount)) ident ClIndexToken_default db s2 of
                  (db', Inl e) \<Rightarrow> (db', Inl e)
                | (db', Inr s3) \<Rightarrow> ReadIn_tokens n db' s3)))"

text \<open>One packet behind its type; a type other than 1 and 2 has no body.\<close>

definition ReadIn_packet ::
  "32 word \<Rightarrow> ClTokenIndexDatabase \<Rightarrow> wxInputStream
     \<Rightarrow> ClTokenIndexDatabase \<times> (read_error + wxInputStream)" where
  "ReadIn_packet packetType db s =
     (if packetType = packet_type ClTokenPacketType_filenames
      then (case ClFilenameDatabase_ReadIn (m_FileDB db) s of
              (fdb, r) \<Rightarrow> (db\<lparr>m_FileDB := fdb\<rparr>, r))
      else if packetType = packet_type ClTokenPacketType_tokens
      then (case ReadInt s of
              Inl e \<Rightarrow> (db, Inl e)
            | Inr (packetCount, s1) \<Rightarrow> ReadIn_tokens (nat (sint packetCount)) db s1)
      else (db, Inr s))"

text \<open>What \<open>ReadIn\<close> returns, with the database as it leaves it.\<close>

datatype ReadIn_result = ReadIn_true | ReadIn_false | ReadIn_undefined

definition ReadIn_error :: "read_error \<Rightarrow> ReadIn_result" where
  "ReadIn_error e = (case e of ReadFailed \<Rightarrow> ReadIn_false | Undefined \<Rightarrow> ReadIn_undefined)"

text \<open>
  The loop \<open>while (in.CanRead())\<close> over the packets. Every round reads the four bytes of
  the packet type or returns, so the loop ends.
\<close>

function ReadIn_packets :: "ClTokenIndexDatabase \<Rightarrow> wxInputStream \<Rightarrow> ReadIn_result \<times> ClTokenIndexDatabase" where
  "ReadIn_packets db s =
     (if \<not> CanRead s then (ReadIn_true, db)
      else case ReadInt s of
             Inl e \<Rightarrow> (ReadIn_error e, db)
           | Inr (packetType, s1) \<Rightarrow>
               if packetType = 0 then (ReadIn_true, db)
               else case ReadIn_packet packetType db s1 of
                      (db', Inl e) \<Rightarrow> (ReadIn_error e, db')
                    | (db', Inr s2) \<Rightarrow> ReadIn_packets db' s2)"
  by pat_completeness auto
termination
proof -
  have bind: "\<exists>a. r = Inr a \<and> f a = Inr y" if "rd_bind r f = Inr y"
    for r :: "read_error + 'x" and f :: "'x \<Rightarrow> read_error + 'y" and y
    using that by (cases r) (simp_all add: rd_bind_def)
  have int: "length (in_data s') < length (in_data s)" if "ReadInt s = Inr (v, s')" for s v s'
    using that by (auto simp: ReadInt_def stream_Read_def split: if_splits)
  have longlong: "length (in_data s') < length (in_data s)" if "ReadLongLong s = Inr (v, s')" for s v s'
    using that by (auto simp: ReadLongLong_def stream_Read_def split: if_splits)
  have str: "length (in_data s') < length (in_data s)" if "ReadString s = Inr (v, s')" for s v s'
    using that by (auto simp: ReadString_def rd_bind_def stream_Read_def dest!: int
        split: sum.splits if_splits)
  have locs: "length (in_data s') \<le> length (in_data s)"
    if "ReadIn_locations n token s = Inr (t, s')" for n token s t s'
    using that
  proof (induction n arbitrary: token s)
    case 0
    then show ?case by simp
  next
    case (Suc n)
    from Suc.prems obtain v1 s1 v2 s2 v3 s3 v4 s4 v5 s5 v6 s6 token' where
      r: "ReadInt s = Inr (v1, s1)" "ReadInt s1 = Inr (v2, s2)" "ReadInt s2 = Inr (v3, s3)"
         "ReadInt s3 = Inr (v4, s4)" "ReadInt s4 = Inr (v5, s5)" "ReadInt s5 = Inr (v6, s6)"
      and rest: "ReadIn_locations n token' s6 = Inr (t, s')"
      by (auto dest!: bind)
    show ?case
      using int [OF r(1)] int [OF r(2)] int [OF r(3)] int [OF r(4)] int [OF r(5)] int [OF r(6)]
        Suc.IH [OF rest]
      by linarith
  qed
  have parents: "length (in_data s') \<le> length (in_data s)"
    if "ReadIn_parents n token s = Inr (t, s')" for n token s t s'
    using that
  proof (induction n arbitrary: token s)
    case 0
    then show ?case by simp
  next
    case (Suc n)
    from Suc.prems obtain v1 s1 v2 s2 token' where
      r: "ReadString s = Inr (v1, s1)" "ReadString s1 = Inr (v2, s2)"
      and rest: "ReadIn_parents n token' s2 = Inr (t, s')"
      by (auto dest!: bind)
    show ?case
      using str [OF r(1)] str [OF r(2)] Suc.IH [OF rest] by linarith
  qed
  have token: "length (in_data s') < length (in_data s)"
    if "ClIndexToken_ReadIn token s = Inr (t, s')" for token s t s'
  proof -
    from that obtain v1 s1 v2 s2 v3 s3 v4 s4 t5 s5 v6 s6 t7 s7 v8 s8 v9 where
      r: "ReadString s = Inr (v1, s1)" "ReadString s1 = Inr (v2, s2)" "ReadString s2 = Inr (v3, s3)"
         "ReadInt s3 = Inr (v4, s4)"
         "ReadIn_locations (unat v4) (token\<lparr>locationList := [], parentTokenList := [],
            identifier := v1, displayName := v2, USR := v3\<rparr>) s4 = Inr (t5, s5)"
         "ReadInt s5 = Inr (v6, s6)" "ReadIn_parents (unat v6) t5 s6 = Inr (t7, s7)"
         "ReadString s7 = Inr (v8, s8)" "ReadString s8 = Inr (v9, s')"
      unfolding ClIndexToken_ReadIn_def by (auto dest!: bind)
    show ?thesis
      using str [OF r(1)] str [OF r(2)] str [OF r(3)] int [OF r(4)] locs [OF r(5)] int [OF r(6)]
        parents [OF r(7)] str [OF r(8)] str [OF r(9)]
      by linarith
  qed
  have filenames: "length (in_data s') \<le> length (in_data s)"
    if "ReadIn_filenames n m s = (m', Inr s')" for n m s m' s'
    using that
  proof (induction n arbitrary: m s)
    case 0
    then show ?case by simp
  next
    case (Suc n)
    from Suc.prems obtain fname s1 ts s2 m1 where
      r: "ReadString s = Inr (fname, s1)" "ReadLongLong s1 = Inr (ts, s2)"
      and rest: "ReadIn_filenames n m1 s2 = (m', Inr s')"
      by (auto split: sum.splits)
    show ?case
      using str [OF r(1)] longlong [OF r(2)] Suc.IH [OF rest] by linarith
  qed
  have bucket: "length (in_data s') \<le> length (in_data s)"
    if "ReadIn_bucket n ident token db s = (db', Inr s')" for n ident token db s db' s'
    using that
  proof (induction n arbitrary: token db s)
    case 0
    then show ?case by simp
  next
    case (Suc n)
    from Suc.prems obtain token' s1 where
      r: "ClIndexToken_ReadIn token s = Inr (token', s1)"
      and rest: "ReadIn_bucket n ident token' (AddToken db ident token') s1 = (db', Inr s')"
      by (auto split: sum.splits)
    show ?case
      using token [OF r] Suc.IH [OF rest] by linarith
  qed
  have tokens: "length (in_data s') \<le> length (in_data s)"
    if "ReadIn_tokens n db s = (db', Inr s')" for n db s db' s'
    using that
  proof (induction n arbitrary: db s)
    case 0
    then show ?case by simp
  next
    case (Suc n)
    from Suc.prems obtain ident s1 cnt s2 db1 s3 where
      r: "ReadString s = Inr (ident, s1)" "ReadInt s1 = Inr (cnt, s2)"
         "ReadIn_bucket (nat (sint cnt)) ident ClIndexToken_default db s2 = (db1, Inr s3)"
      and rest: "ReadIn_tokens n db1 s3 = (db', Inr s')"
      by (auto split: sum.splits prod.splits)
    show ?case
      using str [OF r(1)] int [OF r(2)] bucket [OF r(3)] Suc.IH [OF rest] by linarith
  qed
  have packet: "length (in_data s') \<le> length (in_data s)"
    if p: "ReadIn_packet packetType db s = (db', Inr s')" for packetType db s db' s'
  proof -
    consider (f) "packetType = packet_type ClTokenPacketType_filenames"
      | (t) "packetType \<noteq> packet_type ClTokenPacketType_filenames"
            "packetType = packet_type ClTokenPacketType_tokens"
      | (o) "packetType \<noteq> packet_type ClTokenPacketType_filenames"
            "packetType \<noteq> packet_type ClTokenPacketType_tokens"
      by blast
    then show ?thesis
    proof cases
      case f
      with p obtain fdb where "ClFilenameDatabase_ReadIn (m_FileDB db) s = (fdb, Inr s')"
        by (auto simp: ReadIn_packet_def split: prod.splits)
      then obtain cnt s1 where "ReadInt s = Inr (cnt, s1)"
        and "ReadIn_filenames (nat (sint cnt)) (m_FileDB db) s1 = (fdb, Inr s')"
        by (auto simp: ClFilenameDatabase_ReadIn_def split: sum.splits)
      then show ?thesis
        using int filenames by fastforce
    next
      case t
      with p obtain cnt s1 where "ReadInt s = Inr (cnt, s1)"
        and "ReadIn_tokens (nat (sint cnt)) db s1 = (db', Inr s')"
        by (auto simp: ReadIn_packet_def split: sum.splits)
      then show ?thesis
        using int tokens by fastforce
    next
      case o
      with p show ?thesis by (simp add: ReadIn_packet_def)
    qed
  qed
  have step: "length (in_data s2) < length (in_data s)"
    if "Inr (packetType, s1) = ReadInt s" and "(db', Inr s2) = ReadIn_packet packetType db s1"
    for packetType s1 s db' s2 db
    using int [OF that(1) [symmetric]] packet [OF that(2) [symmetric]] by linarith
  show ?thesis
    by (relation "measure (\<lambda>(db, s). length (in_data s))") (auto intro: step)
qed

declare ReadIn_packets.simps [simp del]

text \<open>
  \<open>ReadIn\<close>; \<open>major\<close> and \<open>minor\<close> are \<open>CINDEX_VERSION_MAJOR\<close> and
  \<open>CINDEX_VERSION_MINOR\<close>. The four bytes of the magic number are read into \<open>buffer\<close>,
  which is not looked at again.
\<close>

definition ReadIn ::
  "32 word \<Rightarrow> 32 word \<Rightarrow> ClTokenIndexDatabase \<Rightarrow> wxInputStream \<Rightarrow> ReadIn_result \<times> ClTokenIndexDatabase" where
  "ReadIn major minor tokenDatabase s =
     (case stream_Read 4 s of
        (buffer, s0) \<Rightarrow>
          (case ReadInt s0 of
             Inl e \<Rightarrow> (ReadIn_error e, tokenDatabase)
           | Inr (version, s1) \<Rightarrow>
               if version \<noteq> 5 then (ReadIn_false, tokenDatabase)
               else (case ReadInt s1 of
                       Inl e \<Rightarrow> (ReadIn_error e, tokenDatabase)
                     | Inr (major', s2) \<Rightarrow>
                         (case ReadInt s2 of
                            Inl e \<Rightarrow> (ReadIn_error e, tokenDatabase)
                          | Inr (minor', s3) \<Rightarrow>
                              if major' \<noteq> major then (ReadIn_false, tokenDatabase)
                              else if minor' \<noteq> minor then (ReadIn_false, tokenDatabase)
                              else ReadIn_packets (ClTokenIndexDatabase_Clear tokenDatabase) s3))))"

subsection \<open>Notions used in the statements about persistence\<close>

text \<open>The tokens filed under a key, in the order of their ids.\<close>

definition tokens_of :: "ClTokenIndexDatabase \<Rightarrow> string \<Rightarrow> ClIndexToken list" where
  "tokens_of db key =
     map (\<lambda>it. ClTreeMap_GetValue it (m_pIndexTokenMap db))
       (ClTreeMap_GetIdSet key (m_pIndexTokenMap db))"

text \<open>A token with its type mask blanked: everything that is written to the stream.\<close>

definition without_mask :: "ClIndexToken \<Rightarrow> ClIndexToken" where
  "without_mask token = token\<lparr>tokenTypeMask := ClTokenType_Unknown\<rparr>"

text \<open>
  What the wire format can carry: a string without a NUL byte whose length fits a
  positive \<open>int\<close>, list sizes that fit the 32-bit counts.
\<close>

definition wire_string :: "string \<Rightarrow> bool" where
  "wire_string s = (CHR 0x00 \<notin> set s \<and> length s < 2 ^ 31)"

definition token_serializable :: "ClIndexToken \<Rightarrow> bool" where
  "token_serializable token =
     (wire_string (identifier token) \<and> wire_string (displayName token) \<and> wire_string (USR token)
      \<and> length (locationList token) < 2 ^ 32
      \<and> length (parentTokenList token) < 2 ^ 32
      \<and> (\<forall>p \<in> set (parentTokenList token). wire_string (fst p) \<and> wire_string (snd p))
      \<and> wire_string (fst (scope token)) \<and> wire_string (snd (scope token)))"

definition database_serializable :: "ClTokenIndexDatabase \<Rightarrow> bool" where
  "database_serializable db =
     (ClTreeMap_ids_valid (m_pIndexTokenMap db)
      \<and> length (m_Data (m_FileDB db)) < 2 ^ 31
      \<and> (\<forall>entry \<in> set (m_Data (m_FileDB db)). length (c_str (filename entry)) < 2 ^ 31)
      \<and> length (ClTreeMap_GetKeySet (m_pIndexTokenMap db)) < 2 ^ 31
      \<and> (\<forall>key \<in> set (ClTreeMap_GetKeySet (m_pIndexTokenMap db)).
            wire_string key \<and> length (ClTreeMap_GetIdSet key (m_pIndexTokenMap db)) < 2 ^ 31)
      \<and> (\<forall>token \<in> set (m_Data (m_pIndexTokenMap db)). token_serializable token))"

text \<open>The type mask that \<open>ClIndexToken::ReadIn\<close> leaves in a token that came with the mask \<open>m\<close>.\<close>

definition mask_after_ReadIn :: "ClTokenType \<Rightarrow> ClIndexToken \<Rightarrow> ClTokenType" where
  "mask_after_ReadIn m token = foldl (OR) m (map tokenType (locationList token))"

fun tokens_after_ReadIn :: "ClTokenType \<Rightarrow> ClIndexToken list \<Rightarrow> ClIndexToken list" where
  "tokens_after_ReadIn m [] = []"
| "tokens_after_ReadIn m (token # tokens) =
     token\<lparr>tokenTypeMask := mask_after_ReadIn m token\<rparr>
     # tokens_after_ReadIn (mask_after_ReadIn m token) tokens"

text \<open>The database after the tokens of one key of the table \<open>m\<close> have been read back.\<close>

definition add_bucket :: "ClIndexToken ClTreeMap \<Rightarrow> ClTokenIndexDatabase \<Rightarrow> string \<Rightarrow> ClTokenIndexDatabase" where
  "add_bucket m d key =
     foldl (\<lambda>d t. AddToken d key t) d
       (tokens_after_ReadIn ClTokenType_Unknown
          (map (\<lambda>it. ClTreeMap_GetValue it m) (ClTreeMap_GetIdSet key m)))"


section \<open>Properties\<close>

subsection \<open>HashToken\<close>

lemma hash_chars_foldl: "hash_chars sg h cs = foldl (hash_step sg) h cs"
  by (induction cs arbitrary: h) simp_all

lemma HashToken_loop_eq:
  "HashToken_loop sg token (h, ident) =
     (foldl (hash_step sg) h (hashed_bytes token), typed_identifier token ident)"
proof (induction token arbitrary: h ident)
  case Nil
  show ?case by (simp add: hashed_bytes_def)
next
  case (Cons chunk token)
  obtain kind str where chunk: "chunk = (kind, str)" by (cases chunk)
  show ?case
    unfolding chunk
    by (simp add: Cons.IH hash_chars_foldl hashed_bytes_def)
qed

lemma unat_of_char: "unat (of_char c :: 8 word) = of_char c"
proof -
  have "(of_char c :: 8 word) = of_nat (of_char c)" by (simp add: of_nat_of_char)
  then have "unat (of_char c :: 8 word) = of_char c mod 256" by (simp only: unat_of_nat) simp
  then show ?thesis by simp
qed

lemma uint_of_char: "uint (of_char c :: 8 word) = int (of_char c)"
  using unat_of_char [of c] by (simp only: uint_nat)

lemma sint_of_char_ascii:
  "of_char c < (128 :: nat) \<Longrightarrow> sint (of_char c :: 8 word) = uint (of_char c :: 8 word)"
  unfolding sint_uint uint_of_char by (simp add: signed_take_bit_int_eq_self)

lemma scast_of_char_ascii:
  assumes "of_char c < (128 :: nat)"
  shows "scast (of_char c :: 8 word) = (ucast (of_char c :: 8 word) :: 32 word)"
  unfolding scast_eq ucast_eq sint_of_char_ascii [OF assms] ..

lemma foldl_hash_step:
  "foldl (hash_step sg) h bs =
     foldl (\<lambda>h c. (h XOR (if sg then scast (of_char c :: 8 word)
                              else ucast (of_char c :: 8 word))) * 16777619) h bs"
  by (induction bs arbitrary: h) (simp_all add: hash_step_def char_to_unsigned_def)

lemma foldl_signed_char_ascii:
  "\<forall>c \<in> set bs. of_char c < (128 :: nat) \<Longrightarrow>
   foldl (\<lambda>h c. (h XOR scast (of_char c :: 8 word)) * 16777619) h bs
     = foldl (\<lambda>h c. (h XOR ucast (of_char c :: 8 word)) * 16777619) h bs"
  for h :: "32 word"
  by (induction bs arbitrary: h) (simp_all add: scast_of_char_ascii)

text \<open>
  C6 (as the code has it). \<open>HashToken\<close> folds the bytes of all chunks of the completion
  string, the leading \<open>~\<close> of a destructor's name included, with basis 2166136261 and
  multiplier 16777619, each byte entering the XOR as a C \<open>char\<close> converted to
  \<open>unsigned\<close>. Where plain \<open>char\<close> is unsigned the result is the FNV-1a hash of those
  bytes. Where plain \<open>char\<close> is signed it is the fold that XORs every byte sign-extended,
  which is the FNV-1a hash of the bytes whenever no byte is 0x80 or above, and need not be
  otherwise. The \<open>~\<close> is stripped only from the identifier that the function hands back.
\<close>

theorem C6_HashToken_hashes_all_bytes:
  "HashToken char_signed token ident =
     (if char_signed then fnv1a_signed_char (hashed_bytes token) else fnv1a (hashed_bytes token),
      typed_identifier token ident)
   \<and> ((\<forall>c \<in> set (hashed_bytes token). of_char c < (128 :: nat)) \<longrightarrow>
        fst (HashToken char_signed token ident) = fnv1a (hashed_bytes token))"
proof -
  have eq: "HashToken char_signed token ident =
     (if char_signed then fnv1a_signed_char (hashed_bytes token) else fnv1a (hashed_bytes token),
      typed_identifier token ident)"
    by (cases char_signed)
      (simp_all add: HashToken_def HashToken_loop_eq fnv1a_def fnv1a_signed_char_def
        foldl_hash_step)
  have "fnv1a_signed_char (hashed_bytes token) = fnv1a (hashed_bytes token)"
    if "\<forall>c \<in> set (hashed_bytes token). of_char c < (128 :: nat)"
    using foldl_signed_char_ascii [OF that] by (simp add: fnv1a_def fnv1a_signed_char_def)
  then show ?thesis using eq by simp
qed

theorem C6_HashToken_hashes_all_bytes_witness:
  "list_all (\<lambda>c. of_char c < (128 :: nat)) (hashed_bytes [(CXCompletionChunk_TypedText, ''~A'')])
   \<and> fst (HashToken True [(CXCompletionChunk_TypedText, ''~A'')] [])
       = fnv1a (hashed_bytes [(CXCompletionChunk_TypedText, ''~A'')])"
proof -
  have h: "\<forall>c \<in> set (hashed_bytes [(CXCompletionChunk_TypedText, ''~A'')]). of_char c < (128 :: nat)"
    by (simp add: hashed_bytes_def c_str_def)
  show ?thesis
    using h C6_HashToken_hashes_all_bytes [of True "[(CXCompletionChunk_TypedText, ''~A'')]" "[]"]
    unfolding list_all_iff by blast
qed

text \<open>
  C6 (as stated) fails: for the destructor \<open>~A\<close> the code's hash differs from the hash
  over the bytes with the \<open>~\<close> stripped, while the identifier is \<open>A\<close>. And where plain
  \<open>char\<close> is signed, the code's hash of a chunk with the two bytes C3 A9 is 1023043777,
  while the FNV-1a hash of the two bytes is 513665217.
\<close>

theorem C6_HashToken_tilde_counterexample:
  "fst (HashToken False [(CXCompletionChunk_TypedText, ''~A'')] [])
     \<noteq> spec_HashToken [(CXCompletionChunk_TypedText, ''~A'')]
   \<and> snd (HashToken False [(CXCompletionChunk_TypedText, ''~A'')] []) = ''A''
   \<and> fst (HashToken True [(CXCompletionChunk_Other, [CHR 0xC3, CHR 0xA9])] []) = 1023043777
   \<and> spec_HashToken [(CXCompletionChunk_Other, [CHR 0xC3, CHR 0xA9])] = 513665217"
proof -
  have tilde: "fst (HashToken False [(CXCompletionChunk_TypedText, ''~A'')] [])
       \<noteq> spec_HashToken [(CXCompletionChunk_TypedText, ''~A'')]
     \<and> snd (HashToken False [(CXCompletionChunk_TypedText, ''~A'')] []) = ''A''"
    by (simp add: HashToken_def spec_HashToken_def spec_hashed_bytes_def fnv1a_def c_str_def
        strip_tilde_def hash_step_def char_to_unsigned_def)
  have signed: "fst (HashToken True [(CXCompletionChunk_Other, [CHR 0xC3, CHR 0xA9])] []) = 1023043777"
    by code_simp
  have plain: "spec_HashToken [(CXCompletionChunk_Other, [CHR 0xC3, CHR 0xA9])] = 513665217"
    by (simp add: spec_HashToken_def spec_hashed_bytes_def fnv1a_def c_str_def)
  show ?thesis using tilde signed plain by blast
qed

subsection \<open>The translation unit after a failed reparse\<close>

lemma run_op_no_unit:
  "m_ClTranslUnit tu = None \<Longrightarrow> run_op op tu = (no_unit_result op, tu)"
  by (cases op)
    (simp_all add: GetTokenAt_def CodeCompleteAt_def GetDiagnostics_def ProcessAllTokens_def)

lemma run_ops_no_unit:
  "m_ClTranslUnit tu = None \<Longrightarrow> run_ops ops tu = (map no_unit_result ops, tu)"
  by (induction ops) (simp_all add: run_op_no_unit)

lemma Reparse_failed:
  assumes "m_ClTranslUnit tu = Some h" and "ret \<noteq> 0"
  shows "m_ClTranslUnit (Reparse tu ret) = None"
    and "native_log (Reparse tu ret) =
           native_log tu @ [clang_reparseTranslationUnit h, clang_disposeTranslationUnit h]"
  using assms by (simp_all add: Reparse_def log_call_def Let_def)

text \<open>
  C7. After a failed reparse (the native call returns a value other than 0) the native
  handle has been disposed, right after the reparse call, and set to null; and every
  sequence of later \<open>GetTokenAt\<close>, \<open>CodeCompleteAt\<close>, \<open>GetDiagnostics\<close> and
  \<open>ProcessAllTokens\<close> calls returns the null cursor, no completion result, the
  diagnostics and lists it was given, and leaves the object and the log of native calls
  as they were.
\<close>

theorem C7_failed_reparse_disables_unit:
  assumes "m_ClTranslUnit tu = Some h" and "ret \<noteq> 0"
  shows "m_ClTranslUnit (Reparse tu ret) = None
       \<and> native_log (Reparse tu ret) =
           native_log tu @ [clang_reparseTranslationUnit h, clang_disposeTranslationUnit h]
       \<and> run_ops ops (Reparse tu ret) = (map no_unit_result ops, Reparse tu ret)"
  using Reparse_failed [OF assms] run_ops_no_unit [of "Reparse tu ret" ops] by simp

theorem C7_failed_reparse_witness:
  "m_ClTranslUnit \<lparr>m_FileId = 0, m_ClTranslUnit = Some 7, m_LastCC = Some 3, m_LastPos = (1, 1),
       native_log = []\<rparr> = Some 7
   \<and> (1 :: 32 word) \<noteq> 0
   \<and> run_ops [Op_GetTokenAt ''a.cpp'' (1, 1) (CXCursor_at 5), Op_CodeCompleteAt ''a.cpp'' (1, 1) (Some 4),
         Op_GetDiagnostics ''a.cpp'' [] [9], Op_ProcessAllTokens [] [] [0, 2] [8]]
       (Reparse \<lparr>m_FileId = 0, m_ClTranslUnit = Some 7, m_LastCC = Some 3, m_LastPos = (1, 1),
          native_log = []\<rparr> 1)
     = ([Res_Cursor CXCursor_null, Res_CC None, Res_Diagnostics [], Res_Tokens [] []],
        \<lparr>m_FileId = 0, m_ClTranslUnit = None, m_LastCC = Some 3, m_LastPos = (1, 1),
          native_log = [clang_reparseTranslationUnit 7, clang_disposeTranslationUnit 7]\<rparr>)"
  using C7_failed_reparse_disables_unit [of "\<lparr>m_FileId = 0, m_ClTranslUnit = Some 7,
      m_LastCC = Some 3, m_LastPos = (1, 1), native_log = []\<rparr>" 7 1
      "[Op_GetTokenAt ''a.cpp'' (1, 1) (CXCursor_at 5), Op_CodeCompleteAt ''a.cpp'' (1, 1) (Some 4),
         Op_GetDiagnostics ''a.cpp'' [] [9], Op_ProcessAllTokens [] [] [0, 2] [8]]"]
  by (simp add: Reparse_def log_call_def)

subsection \<open>The include list of ProcessAllTokens\<close>

text \<open>
  C5 fails on the code. \<open>clang_getInclusions\<close> reports the main file too, so its id is in
  the list twice once \<open>m_FileId\<close> is pushed; \<open>std::unique\<close> is called but nothing is
  erased, so the list keeps both. With more repeated ids the list is not sorted either.
  The unit's own id is in the list.
\<close>

theorem C5_ProcessAllTokens_keeps_duplicates:
  "fst (fst (ProcessAllTokens \<lparr>m_FileId = 0, m_ClTranslUnit = Some 1, m_LastCC = None,
        m_LastPos = (0, 0), native_log = []\<rparr> [] [] [0] [])) = [0, 0]
   \<and> fst (fst (ProcessAllTokens \<lparr>m_FileId = 1, m_ClTranslUnit = Some 1, m_LastCC = None,
        m_LastPos = (0, 0), native_log = []\<rparr> [] [] [1, 2, 2, 3] [])) = [1, 2, 3, 2, 3]"
  by (simp add: ProcessAllTokens_def std_sort_def std_unique_def log_call_def)

subsection \<open>Constructors in the completion result\<close>

text \<open>
  C2 fails on the code. With the include-constructors option off, \<open>CodeCompleteAt\<close>
  producing a public constructor, a public destructor and a function: the job's final
  result holds all three, the constructor and the destructor with their categories as
  they came and the function refined. The \<open>continue\<close> under \<open>if (!m_IncludeCtors)\<close>
  skips the refinement of the candidate; nothing takes the candidate out of the list,
  which is swapped whole into \<open>m_pResults\<close>.
\<close>

theorem C2_Execute_keeps_constructor:
  "m_pResults (Execute \<lparr>m_IncludeCtors = False, m_UnsavedFiles = [], m_pResults = []\<rparr>
      [\<lparr>tkn_id = 0, category = tcCtorPublic, name = ''Foo'', weight = 0\<rparr>,
       \<lparr>tkn_id = 1, category = tcDtorPublic, name = ''~Foo'', weight = 0\<rparr>,
       \<lparr>tkn_id = 2, category = tcFuncPublic, name = ''bar'', weight = 0\<rparr>]
      (\<lambda>i c. tcOther))
     = [\<lparr>tkn_id = 0, category = tcCtorPublic, name = ''Foo'', weight = 0\<rparr>,
        \<lparr>tkn_id = 1, category = tcDtorPublic, name = ''~Foo'', weight = 0\<rparr>,
        \<lparr>tkn_id = 2, category = tcOther, name = ''bar'', weight = 0\<rparr>]"
  by (simp add: Execute_def Execute_step_def)

subsection \<open>The token databases\<close>

lemma Format_d_0: "Format_d 0 = ''0''"
  by (simp add: Format_d_def decimal.simps)

lemma Format_d_1: "Format_d 1 = ''1''"
  by (simp add: Format_d_def decimal.simps)

lemma Format_d_NOT_FOUND: "Format_d (- 1) = ''-1''"
  by (simp add: Format_d_def decimal.simps)

lemmas treemap_defs =
  ClTreeMap_empty_def ClTreeMap_Insert_def ClTreeMap_GetIdSet_def ClTreeMap_RemoveIdKey_def
  ClTreeMap_HasValue_def ClTreeMap_GetValue_def ClTreeMap_SetValue_def ClTreeMap_GetCount_def
  ClTreeMap_GetKeySet_def tree_Insert_def tree_Remove_value_def tree_Remove_def tree_GetIdSet_def
  tree_GetKeySet_def tree_GetValue_def

text \<open>
  C8 fails on the code. \<open>RemoveToken\<close> on the one token of a database, in file 0: built
  with \<open>NDEBUG\<close> it leaves the stored token as it was (file id 0, not the not-found id)
  and only moves the id in the file index to the key \<open>-1\<close> and out of the identifier
  index; built with assertions it stops at the assertion of \<open>UpdateToken\<close>.
  \<open>UpdateToken\<close> on a blank slot leaves the slot blank and does not put the id under the
  new identifier.
\<close>

theorem C8_RemoveToken_leaves_slot:
  "RemoveToken True (snd (InsertToken ClTokenDatabase_new (ClAbstractToken_default\<lparr>abs_fileId := 0, abs_identifier := ''foo''\<rparr>))) 0
     = Inr \<lparr>m_pTokens = \<lparr>m_Tree = [], m_Data = [ClAbstractToken_default\<lparr>abs_fileId := 0, abs_identifier := ''foo''\<rparr>]\<rparr>,
            tdb_pFileTokens = [(''-1'', 0)]\<rparr>
   \<and> RemoveToken False (snd (InsertToken ClTokenDatabase_new (ClAbstractToken_default\<lparr>abs_fileId := 0, abs_identifier := ''foo''\<rparr>))) 0
     = Inl AssertionFailed
   \<and> ClTokenDatabase_UpdateToken False (snd (InsertToken ClTokenDatabase_new ClAbstractToken_default)) 0
        (ClAbstractToken_default\<lparr>abs_fileId := 0, abs_identifier := ''foo''\<rparr>)
     = Inr \<lparr>m_pTokens = \<lparr>m_Tree = [], m_Data = [ClAbstractToken_default]\<rparr>,
            tdb_pFileTokens = [(''-1'', 0), (''0'', 0)]\<rparr>"
  by (simp add: RemoveToken_def InsertToken_def GetTokenId_def ClTokenDatabase_new_def GetToken_def
      ClTokenDatabase_UpdateToken_def ClAbstractToken_default_def treemap_defs
      Format_d_0 Format_d_NOT_FOUND wxNOT_FOUND_def Let_def)

text \<open>
  C4 fails on the code. A token with two locations in file 1, one after the other:
  \<open>RemoveFileTokens\<close> for file 1 erases the first and steps over the second, which
  stays in the list. The entry of the file in the file index is cleared.
\<close>

theorem C4_RemoveFileTokens_skips_location:
  "locationList (ClTreeMap_GetValue 0 (m_pIndexTokenMap (RemoveFileTokens
      (UpdateToken
        (UpdateToken ClTokenIndexDatabase_new ''f'' ''f'' 1 ''u'' 2
           \<lparr>beginLocation = \<lparr>line = 1, column = 1\<rparr>, endLocation = \<lparr>line = 1, column = 2\<rparr>\<rparr> [] ([], []))
        ''f'' ''f'' 1 ''u'' 2
        \<lparr>beginLocation = \<lparr>line = 5, column = 1\<rparr>, endLocation = \<lparr>line = 5, column = 2\<rparr>\<rparr> [] ([], []))
      1)))
   = [\<lparr>tokenType = 2, fileId = 1,
       tokenRange = \<lparr>beginLocation = \<lparr>line = 5, column = 1\<rparr>, endLocation = \<lparr>line = 5, column = 2\<rparr>\<rparr>\<rparr>]
   \<and> tree_GetIdSet (Format_d 1) (m_pFileTokens (RemoveFileTokens
      (UpdateToken
        (UpdateToken ClTokenIndexDatabase_new ''f'' ''f'' 1 ''u'' 2
           \<lparr>beginLocation = \<lparr>line = 1, column = 1\<rparr>, endLocation = \<lparr>line = 1, column = 2\<rparr>\<rparr> [] ([], []))
        ''f'' ''f'' 1 ''u'' 2
        \<lparr>beginLocation = \<lparr>line = 5, column = 1\<rparr>, endLocation = \<lparr>line = 5, column = 2\<rparr>\<rparr> [] ([], []))
      1)) = []"
  by (simp add: RemoveFileTokens_def UpdateToken_def ClTokenIndexDatabase_new_def ClIndexToken_new_def
      UpdateToken_merge_def push_back_unless_found_def treemap_defs Format_d_1)

lemma LookupTokenFileList_loop_iff:
  "f \<in> LookupTokenFileList_loop db usr m ids acc \<longleftrightarrow>
     f \<in> acc \<or> (\<exists>it \<in> set ids.
        (tokenTypeMask (ClTreeMap_GetValue it (m_pIndexTokenMap db)) AND m) = m
        \<and> (usr = [] \<or> USR (ClTreeMap_GetValue it (m_pIndexTokenMap db)) = []
             \<or> usr = USR (ClTreeMap_GetValue it (m_pIndexTokenMap db)))
        \<and> f \<in> fileId ` set (locationList (ClTreeMap_GetValue it (m_pIndexTokenMap db))))"
  by (induction ids arbitrary: acc) (auto simp: Let_def)

lemma LookupTokenPosition_location_None:
  "LookupTokenPosition_location f m locs = None \<longleftrightarrow>
     \<not> (\<exists>l \<in> set locs. (tokenType l AND m) = m \<and> fileId l = f)"
  by (auto simp: LookupTokenPosition_location_def find_None_iff)

lemma LookupTokenPosition_loop_iff:
  "LookupTokenPosition_loop db f usr m ids \<noteq> None \<longleftrightarrow>
     (\<exists>it \<in> set ids.
        (tokenTypeMask (ClTreeMap_GetValue it (m_pIndexTokenMap db)) AND m) = m
        \<and> (usr = [] \<or> usr = USR (ClTreeMap_GetValue it (m_pIndexTokenMap db)))
        \<and> (\<exists>l \<in> set (locationList (ClTreeMap_GetValue it (m_pIndexTokenMap db))).
              (tokenType l AND m) = m \<and> fileId l = f))"
proof (induction ids)
  case Nil
  show ?case by simp
next
  case (Cons it ids)
  show ?case
  proof (cases "LookupTokenPosition_location f m (locationList (ClTreeMap_GetValue it (m_pIndexTokenMap db)))")
    case None
    then show ?thesis
      using Cons.IH LookupTokenPosition_location_None [of f m "locationList (ClTreeMap_GetValue it (m_pIndexTokenMap db))"]
      by (auto simp: Let_def)
  next
    case (Some l)
    then have "\<exists>l \<in> set (locationList (ClTreeMap_GetValue it (m_pIndexTokenMap db))). (tokenType l AND m) = m \<and> fileId l = f"
      using LookupTokenPosition_location_None [of f m "locationList (ClTreeMap_GetValue it (m_pIndexTokenMap db))"]
      by simp
    then show ?thesis
      using Some Cons.IH by (auto simp: Let_def)
  qed
qed

text \<open>
  C10. \<open>LookupTokenFileList\<close> takes a token of the identifier whose type mask has the
  bits asked for when the USR asked for is empty, or the stored USR is empty, or both are
  equal; \<open>LookupTokenPosition\<close> takes it only when the USR asked for is empty or equal to
  the stored one. So for a token stored with an empty USR, in file 1, and a non-empty USR
  asked for, file 1 is in the file list while the position lookup for file 1 finds
  nothing.
\<close>

theorem C10_USR_wildcard_differs:
  "(f \<in> LookupTokenFileList db ident usr m \<longleftrightarrow>
      (\<exists>it \<in> set (ClTreeMap_GetIdSet ident (m_pIndexTokenMap db)).
        (tokenTypeMask (ClTreeMap_GetValue it (m_pIndexTokenMap db)) AND m) = m
        \<and> (usr = [] \<or> USR (ClTreeMap_GetValue it (m_pIndexTokenMap db)) = []
             \<or> usr = USR (ClTreeMap_GetValue it (m_pIndexTokenMap db)))
        \<and> f \<in> fileId ` set (locationList (ClTreeMap_GetValue it (m_pIndexTokenMap db)))))
   \<and> (LookupTokenPosition db ident f usr m \<noteq> None \<longleftrightarrow>
      (\<exists>it \<in> set (ClTreeMap_GetIdSet ident (m_pIndexTokenMap db)).
        (tokenTypeMask (ClTreeMap_GetValue it (m_pIndexTokenMap db)) AND m) = m
        \<and> (usr = [] \<or> usr = USR (ClTreeMap_GetValue it (m_pIndexTokenMap db)))
        \<and> (\<exists>l \<in> set (locationList (ClTreeMap_GetValue it (m_pIndexTokenMap db))).
              (tokenType l AND m) = m \<and> fileId l = f)))
   \<and> 1 \<in> LookupTokenFileList
            (UpdateToken ClTokenIndexDatabase_new ''f'' ''f'' 1 [] 2
               \<lparr>beginLocation = \<lparr>line = 1, column = 1\<rparr>, endLocation = \<lparr>line = 1, column = 2\<rparr>\<rparr> [] ([], []))
            ''f'' ''c:@F@f#'' 2
   \<and> LookupTokenPosition
            (UpdateToken ClTokenIndexDatabase_new ''f'' ''f'' 1 [] 2
               \<lparr>beginLocation = \<lparr>line = 1, column = 1\<rparr>, endLocation = \<lparr>line = 1, column = 2\<rparr>\<rparr> [] ([], []))
            ''f'' 1 ''c:@F@f#'' 2 = None"
proof -
  have a: "f \<in> LookupTokenFileList db ident usr m \<longleftrightarrow>
      (\<exists>it \<in> set (ClTreeMap_GetIdSet ident (m_pIndexTokenMap db)).
        (tokenTypeMask (ClTreeMap_GetValue it (m_pIndexTokenMap db)) AND m) = m
        \<and> (usr = [] \<or> USR (ClTreeMap_GetValue it (m_pIndexTokenMap db)) = []
             \<or> usr = USR (ClTreeMap_GetValue it (m_pIndexTokenMap db)))
        \<and> f \<in> fileId ` set (locationList (ClTreeMap_GetValue it (m_pIndexTokenMap db))))"
    unfolding LookupTokenFileList_def LookupTokenFileList_loop_iff by simp
  have b: "LookupTokenPosition db ident f usr m \<noteq> None \<longleftrightarrow>
      (\<exists>it \<in> set (ClTreeMap_GetIdSet ident (m_pIndexTokenMap db)).
        (tokenTypeMask (ClTreeMap_GetValue it (m_pIndexTokenMap db)) AND m) = m
        \<and> (usr = [] \<or> usr = USR (ClTreeMap_GetValue it (m_pIndexTokenMap db)))
        \<and> (\<exists>l \<in> set (locationList (ClTreeMap_GetValue it (m_pIndexTokenMap db))).
              (tokenType l AND m) = m \<and> fileId l = f))"
    unfolding LookupTokenPosition_def by (rule LookupTokenPosition_loop_iff)
  have c: "1 \<in> LookupTokenFileList
            (UpdateToken ClTokenIndexDatabase_new ''f'' ''f'' 1 [] 2
               \<lparr>beginLocation = \<lparr>line = 1, column = 1\<rparr>, endLocation = \<lparr>line = 1, column = 2\<rparr>\<rparr> [] ([], []))
            ''f'' ''c:@F@f#'' 2"
    by (simp add: LookupTokenFileList_def UpdateToken_def ClTokenIndexDatabase_new_def
        ClIndexToken_new_def treemap_defs)
  have d: "LookupTokenPosition
            (UpdateToken ClTokenIndexDatabase_new ''f'' ''f'' 1 [] 2
               \<lparr>beginLocation = \<lparr>line = 1, column = 1\<rparr>, endLocation = \<lparr>line = 1, column = 2\<rparr>\<rparr> [] ([], []))
            ''f'' 1 ''c:@F@f#'' 2 = None"
    by (simp add: LookupTokenPosition_def UpdateToken_def ClTokenIndexDatabase_new_def
        ClIndexToken_new_def treemap_defs)
  show ?thesis using a b c d by blast
qed

theorem C10_USR_wildcard_witness:
  "(\<exists>it \<in> set (ClTreeMap_GetIdSet ''f'' (m_pIndexTokenMap
        (UpdateToken ClTokenIndexDatabase_new ''f'' ''f'' 1 [] 2
           \<lparr>beginLocation = \<lparr>line = 1, column = 1\<rparr>, endLocation = \<lparr>line = 1, column = 2\<rparr>\<rparr> [] ([], [])))).
      USR (ClTreeMap_GetValue it (m_pIndexTokenMap
        (UpdateToken ClTokenIndexDatabase_new ''f'' ''f'' 1 [] 2
           \<lparr>beginLocation = \<lparr>line = 1, column = 1\<rparr>, endLocation = \<lparr>line = 1, column = 2\<rparr>\<rparr> [] ([], [])))) = [])
   \<and> 1 \<in> LookupTokenFileList
            (UpdateToken ClTokenIndexDatabase_new ''f'' ''f'' 1 [] 2
               \<lparr>beginLocation = \<lparr>line = 1, column = 1\<rparr>, endLocation = \<lparr>line = 1, column = 2\<rparr>\<rparr> [] ([], []))
            ''f'' ''c:@F@f#'' 2
   \<and> LookupTokenPosition
            (UpdateToken ClTokenIndexDatabase_new ''f'' ''f'' 1 [] 2
               \<lparr>beginLocation = \<lparr>line = 1, column = 1\<rparr>, endLocation = \<lparr>line = 1, column = 2\<rparr>\<rparr> [] ([], []))
            ''f'' 1 ''c:@F@f#'' 2 = None"
  using C10_USR_wildcard_differs [of 1
      "UpdateToken ClTokenIndexDatabase_new ''f'' ''f'' 1 [] 2
         \<lparr>beginLocation = \<lparr>line = 1, column = 1\<rparr>, endLocation = \<lparr>line = 1, column = 2\<rparr>\<rparr> [] ([], [])"
      "''f''" "''c:@F@f#''" 2]
  by (simp add: UpdateToken_def ClTokenIndexDatabase_new_def ClIndexToken_new_def treemap_defs)

lemma set_tree_GetIdSet: "set (tree_GetIdSet key t) = {i. (key, i) \<in> set t}"
  by (force simp: tree_GetIdSet_def)

lemma UpdateToken_match_None:
  "UpdateToken_match db usr ids = None \<longleftrightarrow>
     (\<forall>i \<in> set ids. USR (ClTreeMap_GetValue i (m_pIndexTokenMap db)) \<noteq> usr)"
  by (induction ids) auto

lemma UpdateToken_match_Some:
  "UpdateToken_match db usr ids = Some it \<Longrightarrow>
     it \<in> set ids \<and> USR (ClTreeMap_GetValue it (m_pIndexTokenMap db)) = usr"
  by (induction ids) (auto split: if_splits)

lemma UpdateToken_match_cong:
  "(\<forall>i \<in> set ids. USR (ClTreeMap_GetValue i (m_pIndexTokenMap db'))
        = USR (ClTreeMap_GetValue i (m_pIndexTokenMap db)))
   \<Longrightarrow> UpdateToken_match db' usr ids = UpdateToken_match db usr ids"
  by (induction ids) auto

lemma UpdateToken_match_unique:
  "it \<in> set ids \<Longrightarrow> USR (ClTreeMap_GetValue it (m_pIndexTokenMap db)) = usr
   \<Longrightarrow> (\<forall>i \<in> set ids. i \<noteq> it \<longrightarrow> USR (ClTreeMap_GetValue i (m_pIndexTokenMap db)) \<noteq> usr)
   \<Longrightarrow> UpdateToken_match db usr ids = Some it"
  by (induction ids) auto

lemma set_push_all: "set (foldl push_back_unless_found xs ys) = set xs \<union> set ys"
  by (induction ys arbitrary: xs) (auto simp: push_back_unless_found_def)

lemma push_all_present: "set ys \<subseteq> set xs \<Longrightarrow> foldl push_back_unless_found xs ys = xs"
  by (induction ys arbitrary: xs) (auto simp: push_back_unless_found_def)

lemma push_back_unless_found_idem:
  "push_back_unless_found (push_back_unless_found xs x) x = push_back_unless_found xs x"
  by (simp add: push_back_unless_found_def)

lemma UpdateToken_merge_idem:
  "UpdateToken_merge (UpdateToken_merge tok f ty r ovs) f ty r ovs = UpdateToken_merge tok f ty r ovs"
  by (simp add: UpdateToken_merge_def push_back_unless_found_idem push_all_present set_push_all)

lemma UpdateToken_merge_new:
  "UpdateToken_merge (ClIndexToken_new ident nm f usr ty r ovs sc) f ty r ovs
     = ClIndexToken_new ident nm f usr ty r ovs sc"
  by (simp add: UpdateToken_merge_def ClIndexToken_new_def push_back_unless_found_def push_all_present)

lemma USR_UpdateToken_merge [simp]: "USR (UpdateToken_merge tok f ty r ovs) = USR tok"
  by (simp add: UpdateToken_merge_def)

lemma m_bModified_UpdateToken: "m_bModified (UpdateToken db ident nm f usr ty r ovs sc)"
  by (simp add: UpdateToken_def Let_def split: option.split prod.split)

text \<open>What one call does to the token table, in the two cases.\<close>

lemma UpdateToken_found:
  assumes "UpdateToken_match db usr (ClTreeMap_GetIdSet ident (m_pIndexTokenMap db)) = Some it"
  shows "m_pIndexTokenMap (UpdateToken db ident nm f usr ty r ovs sc) =
           ClTreeMap_SetValue it
             (UpdateToken_merge (ClTreeMap_GetValue it (m_pIndexTokenMap db)) f ty r ovs)
             (m_pIndexTokenMap db)"
  using assms by (simp add: UpdateToken_def Let_def)

lemma UpdateToken_not_found:
  assumes "UpdateToken_match db usr (ClTreeMap_GetIdSet ident (m_pIndexTokenMap db)) = None"
  shows "m_pIndexTokenMap (UpdateToken db ident nm f usr ty r ovs sc) =
           snd (ClTreeMap_Insert ident (ClIndexToken_new ident nm f usr ty r ovs sc)
                  (m_pIndexTokenMap db))"
  using assms by (simp add: UpdateToken_def split: prod.split)

lemma GetIdSet_valid:
  "ClTreeMap_ids_valid m \<Longrightarrow> i \<in> set (ClTreeMap_GetIdSet key m) \<Longrightarrow> i < length (m_Data m)"
  by (auto simp: ClTreeMap_ids_valid_def ClTreeMap_GetIdSet_def set_tree_GetIdSet)

lemma UpdateToken_matched_found:
  assumes valid: "ClTreeMap_ids_valid (m_pIndexTokenMap db)"
    and m: "UpdateToken_match db usr (ClTreeMap_GetIdSet ident (m_pIndexTokenMap db)) = Some it"
  shows "UpdateToken_matched (UpdateToken db ident nm f usr ty r ovs sc) ident usr =
           Some (UpdateToken_merge (ClTreeMap_GetValue it (m_pIndexTokenMap db)) f ty r ovs)"
proof -
  let ?db1 = "UpdateToken db ident nm f usr ty r ovs sc"
  let ?ids = "ClTreeMap_GetIdSet ident (m_pIndexTokenMap db)"
  have it: "it \<in> set ?ids" "USR (ClTreeMap_GetValue it (m_pIndexTokenMap db)) = usr"
    using UpdateToken_match_Some [OF m] by simp_all
  have lt: "it < length (m_Data (m_pIndexTokenMap db))"
    using GetIdSet_valid [OF valid it(1)] .
  have map1: "m_pIndexTokenMap ?db1 =
           ClTreeMap_SetValue it
             (UpdateToken_merge (ClTreeMap_GetValue it (m_pIndexTokenMap db)) f ty r ovs)
             (m_pIndexTokenMap db)"
    by (rule UpdateToken_found [OF m])
  have ids1: "ClTreeMap_GetIdSet ident (m_pIndexTokenMap ?db1) = ?ids"
    by (simp add: map1 ClTreeMap_GetIdSet_def ClTreeMap_SetValue_def)
  have usr1: "\<forall>i \<in> set ?ids. USR (ClTreeMap_GetValue i (m_pIndexTokenMap ?db1))
        = USR (ClTreeMap_GetValue i (m_pIndexTokenMap db))"
    using lt by (auto simp: map1 ClTreeMap_GetValue_def ClTreeMap_SetValue_def nth_list_update)
  have "UpdateToken_match ?db1 usr ?ids = Some it"
    using UpdateToken_match_cong [OF usr1, of usr] m by simp
  moreover have "ClTreeMap_GetValue it (m_pIndexTokenMap ?db1) =
      UpdateToken_merge (ClTreeMap_GetValue it (m_pIndexTokenMap db)) f ty r ovs"
    using lt by (simp add: map1 ClTreeMap_GetValue_def ClTreeMap_SetValue_def)
  ultimately show ?thesis
    by (simp add: UpdateToken_matched_def ids1)
qed

lemma UpdateToken_matched_not_found:
  assumes valid: "ClTreeMap_ids_valid (m_pIndexTokenMap db)"
    and m: "UpdateToken_match db usr (ClTreeMap_GetIdSet ident (m_pIndexTokenMap db)) = None"
  shows "UpdateToken_matched (UpdateToken db ident nm f usr ty r ovs sc) ident usr =
           Some (ClIndexToken_new ident nm f usr ty r ovs sc)"
proof -
  let ?db1 = "UpdateToken db ident nm f usr ty r ovs sc"
  let ?m = "m_pIndexTokenMap db"
  let ?n = "length (m_Data ?m)"
  let ?new = "ClIndexToken_new ident nm f usr ty r ovs sc"
  have map1: "m_pIndexTokenMap ?db1 =
      \<lparr>m_Tree = tree_Insert ident ?n (m_Tree ?m), m_Data = m_Data ?m @ [?new]\<rparr>"
    using UpdateToken_not_found [OF m] by (simp add: ClTreeMap_Insert_def)
  have ids1: "set (ClTreeMap_GetIdSet ident (m_pIndexTokenMap ?db1))
      = insert ?n (set (ClTreeMap_GetIdSet ident ?m))"
    by (auto simp: map1 ClTreeMap_GetIdSet_def set_tree_GetIdSet tree_Insert_def)
  have new: "ClTreeMap_GetValue ?n (m_pIndexTokenMap ?db1) = ?new"
    by (simp add: map1 ClTreeMap_GetValue_def)
  have old: "\<forall>i \<in> set (ClTreeMap_GetIdSet ident ?m).
      ClTreeMap_GetValue i (m_pIndexTokenMap ?db1) = ClTreeMap_GetValue i ?m"
    using GetIdSet_valid [OF valid] by (auto simp: map1 ClTreeMap_GetValue_def nth_append)
  have nomatch: "\<forall>i \<in> set (ClTreeMap_GetIdSet ident ?m). USR (ClTreeMap_GetValue i ?m) \<noteq> usr"
    using m by (simp add: UpdateToken_match_None)
  have "UpdateToken_match ?db1 usr (ClTreeMap_GetIdSet ident (m_pIndexTokenMap ?db1)) = Some ?n"
  proof (rule UpdateToken_match_unique)
    show "?n \<in> set (ClTreeMap_GetIdSet ident (m_pIndexTokenMap ?db1))" by (simp add: ids1)
    show "USR (ClTreeMap_GetValue ?n (m_pIndexTokenMap ?db1)) = usr"
      by (simp add: new ClIndexToken_new_def)
    show "\<forall>i \<in> set (ClTreeMap_GetIdSet ident (m_pIndexTokenMap ?db1)).
        i \<noteq> ?n \<longrightarrow> USR (ClTreeMap_GetValue i (m_pIndexTokenMap ?db1)) \<noteq> usr"
      using old nomatch by (auto simp: ids1)
  qed
  then show ?thesis by (simp add: UpdateToken_matched_def new)
qed

lemma ids_valid_UpdateToken:
  assumes "ClTreeMap_ids_valid (m_pIndexTokenMap db)"
  shows "ClTreeMap_ids_valid (m_pIndexTokenMap (UpdateToken db ident nm f usr ty r ovs sc))"
proof (cases "UpdateToken_match db usr (ClTreeMap_GetIdSet ident (m_pIndexTokenMap db))")
  case None
  show ?thesis
    using assms unfolding UpdateToken_not_found [OF None]
    by (auto simp: ClTreeMap_ids_valid_def ClTreeMap_Insert_def tree_Insert_def less_Suc_eq)
next
  case (Some it)
  show ?thesis
    using assms unfolding UpdateToken_found [OF Some]
    by (auto simp: ClTreeMap_ids_valid_def ClTreeMap_SetValue_def)
qed

lemma count_list_push_back_unless_found:
  "count_list (push_back_unless_found xs x) y
     = (if y = x then max 1 (count_list xs x) else count_list xs y)"
proof -
  have "1 \<le> count_list xs x" if "x \<in> set xs"
    using that count_list_0_iff [of xs x] by (cases "count_list xs x") simp_all
  then show ?thesis
    by (auto simp: push_back_unless_found_def max_def)
qed

lemma count_list_push_all:
  "count_list (foldl push_back_unless_found xs ys) p
     = (if p \<in> set ys then max 1 (count_list xs p) else count_list xs p)"
  by (induction ys arbitrary: xs) (auto simp: count_list_push_back_unless_found)

text \<open>
  C9 (as the code has it). For every database (whose tree ids are indexes of its table)
  and all arguments, two calls of \<open>UpdateToken\<close> with the same arguments both set the
  modified flag, and the second call leaves the token table as the first one made it. The
  token matched afterwards holds the location and every pair of the override list as
  often as the token matched before the calls held it, and once where that token did not
  hold it. Where no token matched before the calls, the new token holds the location once
  and every pair as often as the override list names it.
\<close>

theorem C9_UpdateToken_twice:
  assumes valid: "ClTreeMap_ids_valid (m_pIndexTokenMap db)"
  shows "m_bModified (UpdateToken db ident nm f usr ty r ovs sc)
       \<and> m_bModified (UpdateToken (UpdateToken db ident nm f usr ty r ovs sc) ident nm f usr ty r ovs sc)
       \<and> m_pIndexTokenMap (UpdateToken (UpdateToken db ident nm f usr ty r ovs sc) ident nm f usr ty r ovs sc)
           = m_pIndexTokenMap (UpdateToken db ident nm f usr ty r ovs sc)
       \<and> (\<exists>tok. UpdateToken_matched
                   (UpdateToken (UpdateToken db ident nm f usr ty r ovs sc) ident nm f usr ty r ovs sc)
                   ident usr = Some tok
              \<and> (case UpdateToken_matched db ident usr of
                    None \<Rightarrow>
                      count_list (locationList tok) \<lparr>tokenType = ty, fileId = f, tokenRange = r\<rparr> = 1
                      \<and> (\<forall>p \<in> set ovs. count_list (parentTokenList tok) p = count_list ovs p)
                  | Some old \<Rightarrow>
                      count_list (locationList tok) \<lparr>tokenType = ty, fileId = f, tokenRange = r\<rparr>
                        = max 1 (count_list (locationList old)
                                   \<lparr>tokenType = ty, fileId = f, tokenRange = r\<rparr>)
                      \<and> (\<forall>p \<in> set ovs. count_list (parentTokenList tok) p
                                            = max 1 (count_list (parentTokenList old) p))))"
proof -
  let ?db1 = "UpdateToken db ident nm f usr ty r ovs sc"
  let ?db2 = "UpdateToken ?db1 ident nm f usr ty r ovs sc"
  let ?loc = "\<lparr>tokenType = ty, fileId = f, tokenRange = r\<rparr>"
  let ?counts = "\<lambda>tok. case UpdateToken_matched db ident usr of
                    None \<Rightarrow>
                      count_list (locationList tok) ?loc = 1
                      \<and> (\<forall>p \<in> set ovs. count_list (parentTokenList tok) p = count_list ovs p)
                  | Some old \<Rightarrow>
                      count_list (locationList tok) ?loc = max 1 (count_list (locationList old) ?loc)
                      \<and> (\<forall>p \<in> set ovs. count_list (parentTokenList tok) p
                                            = max 1 (count_list (parentTokenList old) p))"
  have valid1: "ClTreeMap_ids_valid (m_pIndexTokenMap ?db1)"
    by (rule ids_valid_UpdateToken [OF valid])
  obtain tok1 it1 where m1: "UpdateToken_match ?db1 usr (ClTreeMap_GetIdSet ident (m_pIndexTokenMap ?db1)) = Some it1"
    and tok1: "ClTreeMap_GetValue it1 (m_pIndexTokenMap ?db1) = tok1"
    and idem: "UpdateToken_merge tok1 f ty r ovs = tok1"
    and counts: "?counts tok1"
  proof (cases "UpdateToken_match db usr (ClTreeMap_GetIdSet ident (m_pIndexTokenMap db))")
    case None
    let ?new = "ClIndexToken_new ident nm f usr ty r ovs sc"
    have "UpdateToken_matched ?db1 ident usr = Some ?new"
      by (rule UpdateToken_matched_not_found [OF valid None])
    then obtain it1 where "UpdateToken_match ?db1 usr (ClTreeMap_GetIdSet ident (m_pIndexTokenMap ?db1)) = Some it1"
      and "ClTreeMap_GetValue it1 (m_pIndexTokenMap ?db1) = ?new"
      by (auto simp: UpdateToken_matched_def)
    moreover have "UpdateToken_merge ?new f ty r ovs = ?new" by (rule UpdateToken_merge_new)
    moreover have "?counts ?new"
      using None by (simp add: UpdateToken_matched_def ClIndexToken_new_def)
    ultimately show ?thesis using that by blast
  next
    case (Some it)
    let ?old = "ClTreeMap_GetValue it (m_pIndexTokenMap db)"
    let ?tok = "UpdateToken_merge ?old f ty r ovs"
    have "UpdateToken_matched ?db1 ident usr = Some ?tok"
      by (rule UpdateToken_matched_found [OF valid Some])
    then obtain it1 where "UpdateToken_match ?db1 usr (ClTreeMap_GetIdSet ident (m_pIndexTokenMap ?db1)) = Some it1"
      and "ClTreeMap_GetValue it1 (m_pIndexTokenMap ?db1) = ?tok"
      by (auto simp: UpdateToken_matched_def)
    moreover have "UpdateToken_merge ?tok f ty r ovs = ?tok" by (rule UpdateToken_merge_idem)
    moreover have "?counts ?tok"
      using Some
      by (simp add: UpdateToken_matched_def UpdateToken_merge_def
          count_list_push_back_unless_found count_list_push_all)
    ultimately show ?thesis using that by blast
  qed
  have map2: "m_pIndexTokenMap ?db2 = m_pIndexTokenMap ?db1"
    unfolding UpdateToken_found [OF m1] tok1 idem
    using tok1 [symmetric] by (simp add: ClTreeMap_SetValue_def ClTreeMap_GetValue_def)
  have "UpdateToken_matched ?db2 ident usr = Some tok1"
    using UpdateToken_matched_found [OF valid1 m1, of nm f ty r ovs sc] tok1 idem by simp
  then show ?thesis
    using counts map2 m_bModified_UpdateToken by blast
qed

theorem C9_UpdateToken_twice_witness:
  "ClTreeMap_ids_valid (m_pIndexTokenMap
      (UpdateToken ClTokenIndexDatabase_new ''f'' ''f'' 1 ''u'' 2
         \<lparr>beginLocation = \<lparr>line = 1, column = 1\<rparr>, endLocation = \<lparr>line = 1, column = 2\<rparr>\<rparr> [] ([], [])))
   \<and> (\<exists>tok. UpdateToken_matched
                (UpdateToken (UpdateToken
                   (UpdateToken ClTokenIndexDatabase_new ''f'' ''f'' 1 ''u'' 2
                      \<lparr>beginLocation = \<lparr>line = 1, column = 1\<rparr>, endLocation = \<lparr>line = 1, column = 2\<rparr>\<rparr> [] ([], []))
                   ''f'' ''f'' 1 ''u'' 2
                   \<lparr>beginLocation = \<lparr>line = 5, column = 1\<rparr>, endLocation = \<lparr>line = 5, column = 2\<rparr>\<rparr>
                   [(''g'', ''v'')] ([], []))
                 ''f'' ''f'' 1 ''u'' 2
                 \<lparr>beginLocation = \<lparr>line = 5, column = 1\<rparr>, endLocation = \<lparr>line = 5, column = 2\<rparr>\<rparr>
                 [(''g'', ''v'')] ([], []))
                ''f'' ''u'' = Some tok
          \<and> count_list (locationList tok)
               \<lparr>tokenType = 2, fileId = 1,
                tokenRange = \<lparr>beginLocation = \<lparr>line = 5, column = 1\<rparr>, endLocation = \<lparr>line = 5, column = 2\<rparr>\<rparr>\<rparr> = 1
          \<and> count_list (parentTokenList tok) (''g'', ''v'') = 1)"
  using C9_UpdateToken_twice [of
      "UpdateToken ClTokenIndexDatabase_new ''f'' ''f'' 1 ''u'' 2
         \<lparr>beginLocation = \<lparr>line = 1, column = 1\<rparr>, endLocation = \<lparr>line = 1, column = 2\<rparr>\<rparr> [] ([], [])"
      "''f''" "''f''" 1 "''u''" 2
      "\<lparr>beginLocation = \<lparr>line = 5, column = 1\<rparr>, endLocation = \<lparr>line = 5, column = 2\<rparr>\<rparr>"
      "[(''g'', ''v'')]" "([], [])"]
  by (simp add: ClTreeMap_ids_valid_def UpdateToken_matched_def UpdateToken_def
      UpdateToken_merge_def push_back_unless_found_def
      ClTokenIndexDatabase_new_def ClIndexToken_new_def treemap_defs)

text \<open>
  C9 (as stated) fails. A token loaded by \<open>AddToken\<close> with the same location twice keeps
  both entries through two calls of \<open>UpdateToken\<close> with that location; and two calls on
  the empty database with an override list that holds a pair twice leave the pair twice in
  the parent list.
\<close>

theorem C9_UpdateToken_twice_counterexample:
  "map_option (\<lambda>tok. count_list (locationList tok)
        \<lparr>tokenType = 2, fileId = 1,
         tokenRange = \<lparr>beginLocation = \<lparr>line = 1, column = 1\<rparr>, endLocation = \<lparr>line = 1, column = 2\<rparr>\<rparr>\<rparr>)
     (UpdateToken_matched
        (UpdateToken (UpdateToken
           (AddToken ClTokenIndexDatabase_new ''f''
              \<lparr>identifier = ''f'', displayName = ''f'', USR = ''u'', tokenTypeMask = 2,
               locationList =
                 [\<lparr>tokenType = 2, fileId = 1,
                   tokenRange = \<lparr>beginLocation = \<lparr>line = 1, column = 1\<rparr>, endLocation = \<lparr>line = 1, column = 2\<rparr>\<rparr>\<rparr>,
                  \<lparr>tokenType = 2, fileId = 1,
                   tokenRange = \<lparr>beginLocation = \<lparr>line = 1, column = 1\<rparr>, endLocation = \<lparr>line = 1, column = 2\<rparr>\<rparr>\<rparr>],
               parentTokenList = [], scope = ([], [])\<rparr>)
           ''f'' ''f'' 1 ''u'' 2
           \<lparr>beginLocation = \<lparr>line = 1, column = 1\<rparr>, endLocation = \<lparr>line = 1, column = 2\<rparr>\<rparr> [] ([], []))
          ''f'' ''f'' 1 ''u'' 2
          \<lparr>beginLocation = \<lparr>line = 1, column = 1\<rparr>, endLocation = \<lparr>line = 1, column = 2\<rparr>\<rparr> [] ([], []))
        ''f'' ''u'') = Some 2
   \<and> map_option (\<lambda>tok. count_list (parentTokenList tok) (''g'', ''v''))
     (UpdateToken_matched
        (UpdateToken (UpdateToken ClTokenIndexDatabase_new
           ''f'' ''f'' 1 ''u'' 2
           \<lparr>beginLocation = \<lparr>line = 1, column = 1\<rparr>, endLocation = \<lparr>line = 1, column = 2\<rparr>\<rparr>
           [(''g'', ''v''), (''g'', ''v'')] ([], []))
          ''f'' ''f'' 1 ''u'' 2
          \<lparr>beginLocation = \<lparr>line = 1, column = 1\<rparr>, endLocation = \<lparr>line = 1, column = 2\<rparr>\<rparr>
          [(''g'', ''v''), (''g'', ''v'')] ([], []))
        ''f'' ''u'') = Some 2"
  by (simp add: UpdateToken_matched_def UpdateToken_def AddToken_def AddToken_file_def
      ClTokenIndexDatabase_new_def ClIndexToken_new_def UpdateToken_merge_def
      push_back_unless_found_def treemap_defs Format_d_1)

subsection \<open>Persistence of the index database\<close>

lemma bytes_int_bytes: "bytes_int (int_bytes w) = w"
  unfolding bytes_int_def int_bytes_def
proof (rule bit_word_eqI)
  fix n assume "n < LENGTH(32)"
  then have n: "n < 32" by simp
  consider "n < 8" | "8 \<le> n" "n < 16" | "16 \<le> n" "n < 24" | "24 \<le> n" "n < 32"
    using n by linarith
  then show "bit (ucast ([ucast w, ucast (drop_bit 8 w), ucast (drop_bit 16 w), ucast (drop_bit 24 w) :: byte] ! 0)
         OR push_bit 8 (ucast ([ucast w, ucast (drop_bit 8 w), ucast (drop_bit 16 w), ucast (drop_bit 24 w) :: byte] ! 1))
         OR push_bit 16 (ucast ([ucast w, ucast (drop_bit 8 w), ucast (drop_bit 16 w), ucast (drop_bit 24 w) :: byte] ! 2))
         OR push_bit 24 (ucast ([ucast w, ucast (drop_bit 8 w), ucast (drop_bit 16 w), ucast (drop_bit 24 w) :: byte] ! 3)) :: 32 word) n
       = bit w n"
    by cases (auto simp: bit_simps)
qed

lemma bytes_longlong_bytes: "bytes_longlong (longlong_bytes w) = w"
proof (rule bit_word_eqI)
  fix n assume "n < LENGTH(64)"
  then have n: "n < 64" by simp
  consider "n < 8" | "8 \<le> n" "n < 16" | "16 \<le> n" "n < 24" | "24 \<le> n" "n < 32"
    | "32 \<le> n" "n < 40" | "40 \<le> n" "n < 48" | "48 \<le> n" "n < 56" | "56 \<le> n" "n < 64"
    using n by linarith
  then show "bit (bytes_longlong (longlong_bytes w)) n = bit w n"
    unfolding bytes_longlong_def longlong_bytes_def
    by cases (auto simp: bit_simps)
qed

lemma length_int_bytes [simp]: "length (int_bytes w) = 4"
  by (simp add: int_bytes_def)

lemma length_longlong_bytes [simp]: "length (longlong_bytes w) = 8"
  by (simp add: longlong_bytes_def)

lemma ReadInt_WriteInt [simp]:
  "ReadInt (wxInputStream_of (WriteInt x @ rest)) = Inr (x, wxInputStream_of rest)"
  by (simp add: ReadInt_def CanRead_def wxInputStream_of_def stream_Read_def WriteInt_def
      bytes_int_bytes)

lemma ReadLongLong_WriteLongLong [simp]:
  "ReadLongLong (wxInputStream_of (WriteLongLong x @ rest)) = Inr (x, wxInputStream_of rest)"
  by (simp add: ReadLongLong_def CanRead_def wxInputStream_of_def stream_Read_def WriteLongLong_def
      bytes_longlong_bytes)

lemma c_str_idem [simp]: "c_str (c_str s) = c_str s"
  by (simp add: c_str_def takeWhile_idem)

lemma c_str_nul_free: "CHR 0x00 \<notin> set s \<Longrightarrow> c_str s = s"
  by (auto simp: c_str_def takeWhile_eq_all_conv)

lemma char_of_unat_of_char [simp]: "char_of (unat (of_char c :: byte)) = c"
proof -
  have "(of_char c :: byte) = of_nat (of_char c)"
    by (simp add: of_nat_of_char)
  then have "unat (of_char c :: byte) = of_char c mod 256"
    by (simp only: unat_of_nat) simp
  then show ?thesis by simp
qed

lemma unat_of_nat_32: "n < 2 ^ 32 \<Longrightarrow> unat (of_nat n :: 32 word) = n"
  by (simp add: unat_of_nat)

lemma sint_of_nat_32: "n < 2 ^ 31 \<Longrightarrow> sint (of_nat n :: 32 word) = int n"
  by (simp add: signed_of_nat signed_take_bit_int_eq_self)

lemma of_nat_32_eq_0: "n < 2 ^ 32 \<Longrightarrow> (of_nat n :: 32 word) = 0 \<longleftrightarrow> n = 0"
  using unat_of_nat_32 [of n] by (auto simp: unat_eq_0 [symmetric] simp del: unat_eq_0)

lemma CanRead_wxInputStream_of [simp]: "CanRead (wxInputStream_of bs)"
  by (simp add: CanRead_def wxInputStream_of_def)

lemma ReadString_WriteString:
  assumes "length (c_str str) < 2 ^ 31"
  shows "ReadString (wxInputStream_of (WriteString str @ rest)) = Inr (c_str str, wxInputStream_of rest)"
proof (cases "c_str str = []")
  case True
  then show ?thesis
    by (simp add: ReadString_def WriteString_def rd_bind_def)
next
  case False
  let ?n = "length (c_str str)"
  have n32: "?n < 2 ^ 32" using assms by simp
  have nz: "(of_nat ?n :: 32 word) \<noteq> 0"
    using False of_nat_32_eq_0 [OF n32] by simp
  have sn: "sint (of_nat ?n :: 32 word) = int ?n"
    by (rule sint_of_nat_32 [OF assms])
  have rd: "stream_Read ?n (wxInputStream_of (map of_char (c_str str) @ rest))
      = (map of_char (c_str str), wxInputStream_of rest)"
    using False by (simp add: stream_Read_def wxInputStream_of_def)
  show ?thesis
    using nz by (simp add: ReadString_def WriteString_def rd_bind_def sn rd comp_def)
qed

lemma wire_string_c_str: "wire_string s \<Longrightarrow> c_str s = s"
  by (simp add: wire_string_def c_str_nul_free)

lemma ReadString_wire:
  "wire_string str \<Longrightarrow>
     ReadString (wxInputStream_of (WriteString str @ rest)) = Inr (str, wxInputStream_of rest)"
  using ReadString_WriteString [of str rest] by (simp add: wire_string_c_str) (simp add: wire_string_def)

lemma rd_bind_Inr_simp [simp]: "rd_bind (Inr a) f = f a"
  by (simp add: rd_bind_def)

lemma ReadIn_locations_WriteOut:
  "ReadIn_locations (length ls) token (wxInputStream_of (concat (map WriteOut_location ls) @ rest))
     = Inr (token\<lparr>locationList := locationList token @ ls,
                  tokenTypeMask := foldl (OR) (tokenTypeMask token) (map tokenType ls)\<rparr>,
            wxInputStream_of rest)"
proof (induction ls arbitrary: token)
  case Nil
  show ?case by simp
next
  case (Cons l ls)
  have l: "\<lparr>tokenType = tokenType l, fileId = fileId l,
            tokenRange = \<lparr>beginLocation = \<lparr>line = line (beginLocation (tokenRange l)),
                                            column = column (beginLocation (tokenRange l))\<rparr>,
                          endLocation = \<lparr>line = line (endLocation (tokenRange l)),
                                          column = column (endLocation (tokenRange l))\<rparr>\<rparr>\<rparr> = l"
    by simp
  have step: "ReadIn_locations (Suc n) token (wxInputStream_of (WriteOut_location l @ rest'))
      = ReadIn_locations n
          (token\<lparr>locationList := locationList token @ [l],
                 tokenTypeMask := tokenTypeMask token OR tokenType l\<rparr>)
          (wxInputStream_of rest')" for n rest'
    by (simp add: WriteOut_location_def l)
  show ?case
    using step [of "length ls" "concat (map WriteOut_location ls) @ rest"]
    by (simp add: Cons.IH)
qed

lemma ReadIn_parents_WriteOut:
  "\<forall>p \<in> set ps. wire_string (fst p) \<and> wire_string (snd p) \<Longrightarrow>
   ReadIn_parents (length ps) token (wxInputStream_of (concat (map WriteOut_parent ps) @ rest))
     = Inr (token\<lparr>parentTokenList := parentTokenList token @ ps\<rparr>, wxInputStream_of rest)"
proof (induction ps arbitrary: token)
  case Nil
  show ?case by simp
next
  case (Cons p ps)
  then show ?case
    by (simp add: WriteOut_parent_def ReadString_wire)
qed

lemma ClIndexToken_ReadIn_WriteOut:
  assumes "token_serializable token"
  shows "ClIndexToken_ReadIn token0 (wxInputStream_of (ClIndexToken_WriteOut token @ rest))
     = Inr (token\<lparr>tokenTypeMask := mask_after_ReadIn (tokenTypeMask token0) token\<rparr>,
            wxInputStream_of rest)"
proof -
  have s: "wire_string (identifier token)" "wire_string (displayName token)" "wire_string (USR token)"
      "wire_string (fst (scope token))" "wire_string (snd (scope token))"
    and ps: "\<forall>p \<in> set (parentTokenList token). wire_string (fst p) \<and> wire_string (snd p)"
    and n: "unat (of_nat (length (locationList token)) :: 32 word) = length (locationList token)"
      "unat (of_nat (length (parentTokenList token)) :: 32 word) = length (parentTokenList token)"
    using assms by (simp_all add: token_serializable_def unat_of_nat_32)
  show ?thesis
    unfolding ClIndexToken_ReadIn_def ClIndexToken_WriteOut_def
    by (simp add: ReadString_wire s n ReadIn_locations_WriteOut ReadIn_parents_WriteOut [OF ps]
        mask_after_ReadIn_def)
qed

lemma nat_sint_of_nat_32: "n < 2 ^ 31 \<Longrightarrow> nat (sint (of_nat n :: 32 word)) = n"
  by (simp add: sint_of_nat_32)

lemma ReadIn_bucket_WriteOut:
  "\<forall>t \<in> set toks. token_serializable t \<Longrightarrow>
   ReadIn_bucket (length toks) ident token0 db
       (wxInputStream_of (concat (map ClIndexToken_WriteOut toks) @ rest))
     = (foldl (\<lambda>d t. AddToken d ident t) db (tokens_after_ReadIn (tokenTypeMask token0) toks),
        Inr (wxInputStream_of rest))"
proof (induction toks arbitrary: token0 db)
  case Nil
  show ?case by simp
next
  case (Cons t toks)
  then show ?case
    by (simp add: ClIndexToken_ReadIn_WriteOut)
qed

lemma ReadIn_tokens_WriteOut:
  "\<forall>key \<in> set keys. wire_string key \<and> length (ClTreeMap_GetIdSet key m) < 2 ^ 31
       \<and> (\<forall>it \<in> set (ClTreeMap_GetIdSet key m). token_serializable (ClTreeMap_GetValue it m)) \<Longrightarrow>
   ReadIn_tokens (length keys) db (wxInputStream_of (concat (map (WriteOut_bucket m) keys) @ rest))
     = (foldl (add_bucket m) db keys, Inr (wxInputStream_of rest))"
proof (induction keys arbitrary: db)
  case Nil
  show ?case by simp
next
  case (Cons key keys)
  let ?toks = "map (\<lambda>it. ClTreeMap_GetValue it m) (ClTreeMap_GetIdSet key m)"
  have k: "wire_string key" and n: "length (ClTreeMap_GetIdSet key m) < 2 ^ 31"
    and ts: "\<forall>t \<in> set ?toks. token_serializable t"
    using Cons.prems by auto
  have b: "ReadIn_bucket (length ?toks) key ClIndexToken_default db
       (wxInputStream_of (concat (map ClIndexToken_WriteOut ?toks) @ rest'))
     = (add_bucket m db key, Inr (wxInputStream_of rest'))" for rest'
    using ReadIn_bucket_WriteOut [OF ts, of key ClIndexToken_default db rest']
    by (simp add: add_bucket_def ClIndexToken_default_def)
  have step: "ReadIn_tokens (Suc n') db (wxInputStream_of (WriteOut_bucket m key @ rest'))
      = ReadIn_tokens n' (add_bucket m db key) (wxInputStream_of rest')" for n' rest'
    using b [of rest']
    by (simp add: WriteOut_bucket_def ReadString_wire [OF k] nat_sint_of_nat_32 [OF n] comp_def)
  show ?case
    using step [of "length keys" "concat (map (WriteOut_bucket m) keys) @ rest"] Cons.prems
    by (simp add: Cons.IH)
qed

lemma ReadIn_filenames_WriteOut:
  "\<forall>e \<in> set es. length (c_str (filename e)) < 2 ^ 31 \<Longrightarrow>
   \<exists>m'. ReadIn_filenames (length es) m0 (wxInputStream_of (concat (map WriteOut_filename es) @ rest))
     = (m', Inr (wxInputStream_of rest))"
proof (induction es arbitrary: m0)
  case Nil
  show ?case by simp
next
  case (Cons e es)
  have step: "ReadIn_filenames (Suc n) m0 (wxInputStream_of (WriteOut_filename e @ rest'))
      = ReadIn_filenames n
          (snd (ClTreeMap_Insert (c_str (filename e))
             \<lparr>filename = c_str (filename e),
              timestamp = (if timestamp e \<noteq> wxInvalidDateTime then timestamp e else 0)\<rparr> m0))
          (wxInputStream_of rest')" for n rest'
    using Cons.prems by (simp add: WriteOut_filename_def ReadString_WriteString)
  show ?case
    using step [of "length es" "concat (map WriteOut_filename es) @ rest"] Cons.IH Cons.prems
    by simp
qed

lemma ClFilenameDatabase_ReadIn_WriteOut:
  assumes "length (m_Data m) < 2 ^ 31"
    and "\<forall>e \<in> set (m_Data m). length (c_str (filename e)) < 2 ^ 31"
  shows "\<exists>m'. ClFilenameDatabase_ReadIn m0 (wxInputStream_of (ClFilenameDatabase_WriteOut m @ rest))
     = (m', Inr (wxInputStream_of rest))"
  using ReadIn_filenames_WriteOut [OF assms(2), of m0 rest]
  by (simp add: ClFilenameDatabase_ReadIn_def ClFilenameDatabase_WriteOut_def ClTreeMap_GetCount_def
      nat_sint_of_nat_32 [OF assms(1)])

lemma ReadIn_packets_packet:
  "packetType \<noteq> 0 \<Longrightarrow>
   ReadIn_packets db (wxInputStream_of (WriteInt packetType @ body))
     = (case ReadIn_packet packetType db (wxInputStream_of body) of
          (db', Inl e) \<Rightarrow> (ReadIn_error e, db')
        | (db', Inr s2) \<Rightarrow> ReadIn_packets db' s2)"
  by (subst ReadIn_packets.simps) simp

lemma ReadIn_packets_end:
  "ReadIn_packets db (wxInputStream_of (WriteInt 0 @ rest)) = (ReadIn_true, db)"
  by (subst ReadIn_packets.simps) simp

lemma stream_Read_magic:
  "length magic = 4 \<Longrightarrow>
   stream_Read 4 (wxInputStream_of (magic @ rest)) = (magic, wxInputStream_of rest)"
  by (simp add: stream_Read_def wxInputStream_of_def)

lemma ReadIn_header:
  assumes "length magic = 4"
  shows "ReadIn major minor target
      (wxInputStream_of (magic @ WriteInt version @ WriteInt major' @ WriteInt minor' @ rest))
    = (if version \<noteq> 5 \<or> major' \<noteq> major \<or> minor' \<noteq> minor then (ReadIn_false, target)
       else ReadIn_packets (ClTokenIndexDatabase_Clear target) (wxInputStream_of rest))"
  by (simp add: ReadIn_def stream_Read_magic [OF assms])

lemma ReadIn_WriteOut:
  assumes "database_serializable db"
  shows "\<exists>fdb. ReadIn major minor target (wxInputStream_of (snd (WriteOut major minor db)))
    = (ReadIn_true,
       foldl (add_bucket (m_pIndexTokenMap db))
         ((ClTokenIndexDatabase_Clear target)\<lparr>m_FileDB := fdb\<rparr>)
         (ClTreeMap_GetKeySet (m_pIndexTokenMap db)))"
proof -
  let ?m = "m_pIndexTokenMap db"
  let ?keys = "ClTreeMap_GetKeySet ?m"
  let ?t0 = "ClTokenIndexDatabase_Clear target"
  have f1: "length (m_Data (m_FileDB db)) < 2 ^ 31"
    and f2: "\<forall>e \<in> set (m_Data (m_FileDB db)). length (c_str (filename e)) < 2 ^ 31"
    and nk: "length ?keys < 2 ^ 31"
    and valid: "ClTreeMap_ids_valid ?m"
    and keys: "\<forall>key \<in> set ?keys. wire_string key \<and> length (ClTreeMap_GetIdSet key ?m) < 2 ^ 31"
    and toks: "\<forall>token \<in> set (m_Data ?m). token_serializable token"
    using assms by (simp_all add: database_serializable_def)
  have keys': "\<forall>key \<in> set ?keys. wire_string key \<and> length (ClTreeMap_GetIdSet key ?m) < 2 ^ 31
       \<and> (\<forall>it \<in> set (ClTreeMap_GetIdSet key ?m). token_serializable (ClTreeMap_GetValue it ?m))"
    using keys toks GetIdSet_valid [OF valid] by (auto simp: ClTreeMap_GetValue_def)
  let ?tail = "WriteInt (2)
      @ WriteInt (of_nat (length ?keys)) @ concat (map (WriteOut_bucket ?m) ?keys) @ WriteInt 0"
  obtain fdb where fdb: "ClFilenameDatabase_ReadIn (m_FileDB ?t0)
        (wxInputStream_of (ClFilenameDatabase_WriteOut (m_FileDB db) @ ?tail))
      = (fdb, Inr (wxInputStream_of ?tail))"
    using ClFilenameDatabase_ReadIn_WriteOut [OF f1 f2] by blast
  let ?t1 = "?t0\<lparr>m_FileDB := fdb\<rparr>"
  have p1: "ReadIn_packet (1) ?t0
        (wxInputStream_of (ClFilenameDatabase_WriteOut (m_FileDB db) @ ?tail))
      = (?t1, Inr (wxInputStream_of ?tail))"
    by (simp add: ReadIn_packet_def packet_type_def fdb)
  have p2: "ReadIn_packet (2) ?t1
        (wxInputStream_of (WriteInt (of_nat (length ?keys))
           @ concat (map (WriteOut_bucket ?m) ?keys) @ WriteInt 0))
      = (foldl (add_bucket ?m) ?t1 ?keys, Inr (wxInputStream_of (WriteInt 0)))"
    using ReadIn_tokens_WriteOut [OF keys', of ?t1 "WriteInt 0"]
    by (simp add: ReadIn_packet_def packet_type_def nat_sint_of_nat_32 [OF nk])
  have "ReadIn major minor target (wxInputStream_of (snd (WriteOut major minor db)))
      = ReadIn_packets ?t0 (wxInputStream_of
          (WriteInt (1)
           @ ClFilenameDatabase_WriteOut (m_FileDB db) @ ?tail))"
    using ReadIn_header [of "map of_char ''ClDb''" major minor target 5 major minor]
    by (simp add: WriteOut_def packet_type_def)
  also have "\<dots> = ReadIn_packets ?t1 (wxInputStream_of ?tail)"
    by (subst ReadIn_packets_packet) (simp_all add: p1)
  also have "\<dots> = ReadIn_packets (foldl (add_bucket ?m) ?t1 ?keys) (wxInputStream_of (WriteInt 0 @ []))"
    by (subst ReadIn_packets_packet) (simp_all add: p2)
  also have "\<dots> = (ReadIn_true, foldl (add_bucket ?m) ?t1 ?keys)"
    by (rule ReadIn_packets_end)
  finally show ?thesis by blast
qed

lemma insort_snoc:
  "\<forall>x \<in> set xs. x \<le> n \<Longrightarrow> a \<le> n \<Longrightarrow> insort a (xs @ [n]) = insort a xs @ [n]"
  for n :: nat
  by (induction xs) auto

lemma sort_snoc: "\<forall>x \<in> set xs. x \<le> n \<Longrightarrow> sort (xs @ [n]) = sort xs @ [n]"
  for n :: nat
  by (induction xs) (simp_all add: insort_snoc)

lemma remdups_snoc: "n \<notin> set xs \<Longrightarrow> remdups (xs @ [n]) = remdups xs @ [n]"
  by (induction xs) auto

lemma tree_GetIdSet_Insert:
  assumes "\<forall>kv \<in> set t. snd kv < n"
  shows "tree_GetIdSet key (tree_Insert k n t)
      = (if k = key then tree_GetIdSet key t @ [n] else tree_GetIdSet key t)"
proof -
  let ?ids = "map snd (filter (\<lambda>kv. fst kv = key) t)"
  have lt: "\<forall>x \<in> set ?ids. x < n" using assms by auto
  then have "n \<notin> set ?ids" by blast
  then have "sort (remdups (?ids @ [n])) = sort (remdups ?ids) @ [n]"
    using lt by (simp add: remdups_snoc sort_snoc less_imp_le)
  then show ?thesis
    by (simp add: tree_GetIdSet_def tree_Insert_def)
qed

lemma tokens_of_AddToken:
  assumes "ClTreeMap_ids_valid (m_pIndexTokenMap d)"
  shows "tokens_of (AddToken d k t) key
      = (if k \<noteq> [] \<and> k = key then tokens_of d key @ [t] else tokens_of d key)"
proof (cases "k = []")
  case True
  then show ?thesis by (simp add: AddToken_def)
next
  case False
  let ?m = "m_pIndexTokenMap d"
  let ?n = "length (m_Data ?m)"
  have m': "m_pIndexTokenMap (AddToken d k t)
      = \<lparr>m_Tree = tree_Insert k ?n (m_Tree ?m), m_Data = m_Data ?m @ [t]\<rparr>"
    using False by (simp add: AddToken_def ClTreeMap_Insert_def)
  have lt: "\<forall>kv \<in> set (m_Tree ?m). snd kv < ?n"
    using assms by (simp add: ClTreeMap_ids_valid_def)
  have ids: "tree_GetIdSet key (tree_Insert k ?n (m_Tree ?m))
      = (if k = key then tree_GetIdSet key (m_Tree ?m) @ [?n] else tree_GetIdSet key (m_Tree ?m))"
    by (rule tree_GetIdSet_Insert [OF lt])
  have old: "map (\<lambda>it. (m_Data ?m @ [t]) ! it) (tree_GetIdSet key (m_Tree ?m))
      = map (\<lambda>it. m_Data ?m ! it) (tree_GetIdSet key (m_Tree ?m))"
    using lt by (auto simp: set_tree_GetIdSet nth_append)
  show ?thesis
    using False
    by (simp add: tokens_of_def m' ClTreeMap_GetIdSet_def ClTreeMap_GetValue_def ids old)
qed

lemma ids_valid_AddToken:
  "ClTreeMap_ids_valid (m_pIndexTokenMap d) \<Longrightarrow> ClTreeMap_ids_valid (m_pIndexTokenMap (AddToken d k t))"
  by (auto simp: AddToken_def ClTreeMap_Insert_def ClTreeMap_ids_valid_def tree_Insert_def
      less_Suc_eq)

lemma AddToken_list:
  "ClTreeMap_ids_valid (m_pIndexTokenMap d) \<Longrightarrow>
   ClTreeMap_ids_valid (m_pIndexTokenMap (foldl (\<lambda>d t. AddToken d k t) d ts))
   \<and> tokens_of (foldl (\<lambda>d t. AddToken d k t) d ts) key
       = tokens_of d key @ (if k \<noteq> [] \<and> k = key then ts else [])"
proof (induction ts arbitrary: d)
  case Nil
  then show ?case by simp
next
  case (Cons t ts)
  show ?case
    using Cons.IH [OF ids_valid_AddToken [OF Cons.prems, of k t]]
      tokens_of_AddToken [OF Cons.prems, of k t key]
    by simp
qed

lemma add_bucket_list:
  "ClTreeMap_ids_valid (m_pIndexTokenMap d) \<Longrightarrow> distinct keys \<Longrightarrow>
   ClTreeMap_ids_valid (m_pIndexTokenMap (foldl (add_bucket m) d keys))
   \<and> tokens_of (foldl (add_bucket m) d keys) key
       = tokens_of d key
         @ (if key \<noteq> [] \<and> key \<in> set keys
            then tokens_after_ReadIn ClTokenType_Unknown
                   (map (\<lambda>it. ClTreeMap_GetValue it m) (ClTreeMap_GetIdSet key m))
            else [])"
proof (induction keys arbitrary: d)
  case Nil
  then show ?case by simp
next
  case (Cons k keys)
  let ?ts = "tokens_after_ReadIn ClTokenType_Unknown
      (map (\<lambda>it. ClTreeMap_GetValue it m) (ClTreeMap_GetIdSet k m))"
  have b: "ClTreeMap_ids_valid (m_pIndexTokenMap (add_bucket m d k))"
    "tokens_of (add_bucket m d k) key = tokens_of d key @ (if k \<noteq> [] \<and> k = key then ?ts else [])"
    using AddToken_list [OF Cons.prems(1), of k ?ts key] by (simp_all add: add_bucket_def)
  have d: "distinct keys" "k \<notin> set keys" using Cons.prems(2) by simp_all
  show ?case
    using Cons.IH [OF b(1) d(1)] b(2) d(2) by auto
qed

lemma without_mask_tokens_after_ReadIn:
  "map without_mask (tokens_after_ReadIn m ts) = map without_mask ts"
  by (induction ts arbitrary: m) (simp_all add: without_mask_def)

lemma tree_GetIdSet_no_key:
  assumes "key \<notin> set (tree_GetKeySet t)"
  shows "tree_GetIdSet key t = []"
proof -
  have "filter (\<lambda>kv. fst kv = key) t = []"
    using assms by (force simp: tree_GetKeySet_def filter_empty_conv)
  then show ?thesis by (simp add: tree_GetIdSet_def)
qed

lemma tokens_of_no_key:
  "key \<notin> set (ClTreeMap_GetKeySet (m_pIndexTokenMap db)) \<Longrightarrow> tokens_of db key = []"
  by (simp add: tokens_of_def ClTreeMap_GetKeySet_def ClTreeMap_GetIdSet_def tree_GetIdSet_no_key)

lemma distinct_tree_GetKeySet: "distinct (tree_GetKeySet t)"
  by (simp add: tree_GetKeySet_def)

lemma tokens_of_ReadIn_WriteOut:
  assumes "database_serializable db"
  shows "tokens_of (snd (ReadIn major minor target (wxInputStream_of (snd (WriteOut major minor db))))) key
     = (if key \<noteq> [] then tokens_after_ReadIn ClTokenType_Unknown (tokens_of db key) else [])"
proof -
  let ?m = "m_pIndexTokenMap db"
  let ?r = "ReadIn major minor target (wxInputStream_of (snd (WriteOut major minor db)))"
  obtain fdb where r: "?r = (ReadIn_true,
       foldl (add_bucket ?m) ((ClTokenIndexDatabase_Clear target)\<lparr>m_FileDB := fdb\<rparr>)
         (ClTreeMap_GetKeySet ?m))"
    using ReadIn_WriteOut [OF assms(1)] by blast
  let ?t1 = "(ClTokenIndexDatabase_Clear target)\<lparr>m_FileDB := fdb\<rparr>"
  have v: "ClTreeMap_ids_valid (m_pIndexTokenMap ?t1)"
    by (simp add: ClTokenIndexDatabase_Clear_def ClTreeMap_ids_valid_def ClTreeMap_empty_def)
  have e: "tokens_of ?t1 key = []"
    by (simp add: tokens_of_def ClTokenIndexDatabase_Clear_def ClTreeMap_empty_def
        ClTreeMap_GetIdSet_def tree_GetIdSet_def)
  have dk: "distinct (ClTreeMap_GetKeySet ?m)"
    by (simp add: ClTreeMap_GetKeySet_def distinct_tree_GetKeySet)
  have t: "map (\<lambda>it. ClTreeMap_GetValue it ?m) (ClTreeMap_GetIdSet key ?m) = tokens_of db key"
    by (simp add: tokens_of_def)
  show ?thesis
  proof (cases "key \<in> set (ClTreeMap_GetKeySet ?m)")
    case True
    then show ?thesis
      using add_bucket_list [OF v dk, of ?m key] t by (simp add: r e)
  next
    case False
    then show ?thesis
      using add_bucket_list [OF v dk, of ?m key] tokens_of_no_key [OF False] by (simp add: r e)
  qed
qed


lemma example_database_serializable:
  "database_serializable
     (UpdateToken (UpdateToken ClTokenIndexDatabase_new ''f'' ''f'' 1 ''u'' 2
         \<lparr>beginLocation = \<lparr>line = 1, column = 1\<rparr>, endLocation = \<lparr>line = 1, column = 2\<rparr>\<rparr> [] ([], []))
       ''f'' ''f'' 1 ''v'' 4
       \<lparr>beginLocation = \<lparr>line = 5, column = 1\<rparr>, endLocation = \<lparr>line = 5, column = 2\<rparr>\<rparr> [] ([], []))"
  by (simp add: database_serializable_def token_serializable_def wire_string_def
      ClTreeMap_ids_valid_def UpdateToken_def ClTokenIndexDatabase_new_def ClIndexToken_new_def
      treemap_defs)


text \<open>
  C1 (as the code has it). For a database that the wire format can carry, \<open>WriteOut\<close>
  followed by \<open>ReadIn\<close> of the bytes into any database succeeds, and under every
  non-empty key the result holds the tokens that were filed under it before, in the same
  order, each with the same identifier, display name, USR, locations, parent pairs and
  scope; the type mask is not written and is left out of the comparison. And when the
  major or minor version in a stream differs from the constants of the running library,
  \<open>ReadIn\<close> returns false and leaves the target database as it was.
\<close>

theorem C1_WriteOut_ReadIn:
  "(database_serializable db \<longrightarrow>
      fst (ReadIn major minor target (wxInputStream_of (snd (WriteOut major minor db)))) = ReadIn_true
      \<and> (\<forall>key. key \<noteq> [] \<longrightarrow>
            map without_mask
              (tokens_of (snd (ReadIn major minor target
                                 (wxInputStream_of (snd (WriteOut major minor db))))) key)
            = map without_mask (tokens_of db key)))
   \<and> (length magic = 4 \<and> (major' \<noteq> major \<or> minor' \<noteq> minor) \<longrightarrow>
        ReadIn major minor target
          (wxInputStream_of (magic @ WriteInt version @ WriteInt major' @ WriteInt minor' @ rest))
        = (ReadIn_false, target))"
proof (intro conjI impI allI)
  assume ser: "database_serializable db"
  show "fst (ReadIn major minor target (wxInputStream_of (snd (WriteOut major minor db)))) = ReadIn_true"
    using ReadIn_WriteOut [OF ser, of major minor target] by auto
next
  fix key :: string
  assume ser: "database_serializable db" and "key \<noteq> []"
  then show "map without_mask
      (tokens_of (snd (ReadIn major minor target
                         (wxInputStream_of (snd (WriteOut major minor db))))) key)
    = map without_mask (tokens_of db key)"
    by (simp add: tokens_of_ReadIn_WriteOut without_mask_tokens_after_ReadIn)
next
  assume "length magic = 4 \<and> (major' \<noteq> major \<or> minor' \<noteq> minor)"
  then show "ReadIn major minor target
          (wxInputStream_of (magic @ WriteInt version @ WriteInt major' @ WriteInt minor' @ rest))
        = (ReadIn_false, target)"
    using ReadIn_header [of magic major minor target version major' minor' rest] by auto
qed

theorem C1_WriteOut_ReadIn_witness:
  "database_serializable
     (UpdateToken (UpdateToken ClTokenIndexDatabase_new ''f'' ''f'' 1 ''u'' 2
         \<lparr>beginLocation = \<lparr>line = 1, column = 1\<rparr>, endLocation = \<lparr>line = 1, column = 2\<rparr>\<rparr> [] ([], []))
       ''f'' ''f'' 1 ''v'' 4
       \<lparr>beginLocation = \<lparr>line = 5, column = 1\<rparr>, endLocation = \<lparr>line = 5, column = 2\<rparr>\<rparr> [] ([], []))
   \<and> fst (ReadIn 0 35 ClTokenIndexDatabase_new (wxInputStream_of (snd (WriteOut 0 35
       (UpdateToken (UpdateToken ClTokenIndexDatabase_new ''f'' ''f'' 1 ''u'' 2
         \<lparr>beginLocation = \<lparr>line = 1, column = 1\<rparr>, endLocation = \<lparr>line = 1, column = 2\<rparr>\<rparr> [] ([], []))
       ''f'' ''f'' 1 ''v'' 4
       \<lparr>beginLocation = \<lparr>line = 5, column = 1\<rparr>, endLocation = \<lparr>line = 5, column = 2\<rparr>\<rparr> [] ([], [])))))) = ReadIn_true
   \<and> map without_mask (tokens_of (snd (ReadIn 0 35 ClTokenIndexDatabase_new (wxInputStream_of (snd (WriteOut 0 35
       (UpdateToken (UpdateToken ClTokenIndexDatabase_new ''f'' ''f'' 1 ''u'' 2
         \<lparr>beginLocation = \<lparr>line = 1, column = 1\<rparr>, endLocation = \<lparr>line = 1, column = 2\<rparr>\<rparr> [] ([], []))
       ''f'' ''f'' 1 ''v'' 4
       \<lparr>beginLocation = \<lparr>line = 5, column = 1\<rparr>, endLocation = \<lparr>line = 5, column = 2\<rparr>\<rparr> [] ([], []))))))) ''f'')
     = map without_mask (tokens_of
       (UpdateToken (UpdateToken ClTokenIndexDatabase_new ''f'' ''f'' 1 ''u'' 2
         \<lparr>beginLocation = \<lparr>line = 1, column = 1\<rparr>, endLocation = \<lparr>line = 1, column = 2\<rparr>\<rparr> [] ([], []))
       ''f'' ''f'' 1 ''v'' 4
       \<lparr>beginLocation = \<lparr>line = 5, column = 1\<rparr>, endLocation = \<lparr>line = 5, column = 2\<rparr>\<rparr> [] ([], [])) ''f'')
   \<and> length (map of_char ''ClDb'' :: byte list) = 4 \<and> (36 :: 32 word) \<noteq> 35
   \<and> ReadIn 0 35 ClTokenIndexDatabase_new
        (wxInputStream_of (map of_char ''ClDb'' @ WriteInt 5 @ WriteInt 0 @ WriteInt 36 @ WriteInt 0))
      = (ReadIn_false, ClTokenIndexDatabase_new)"
  using C1_WriteOut_ReadIn [where db = "UpdateToken (UpdateToken ClTokenIndexDatabase_new ''f'' ''f'' 1 ''u'' 2
         \<lparr>beginLocation = \<lparr>line = 1, column = 1\<rparr>, endLocation = \<lparr>line = 1, column = 2\<rparr>\<rparr> [] ([], []))
       ''f'' ''f'' 1 ''v'' 4
       \<lparr>beginLocation = \<lparr>line = 5, column = 1\<rparr>, endLocation = \<lparr>line = 5, column = 2\<rparr>\<rparr> [] ([], [])"
      and major = 0 and minor = 35 and target = ClTokenIndexDatabase_new
      and magic = "map of_char ''ClDb''" and major' = 0 and minor' = 36 and version = 5
      and rest = "WriteInt 0"]
    example_database_serializable
  by simp

text \<open>
  C1 (as stated) fails. A token that lost its only location to \<open>RemoveFileTokens\<close> has
  the type mask 2 before it is written and 0 after it is read back; and a token filed
  under the empty identifier is written but not read back, because \<open>AddToken\<close> skips
  an empty identifier.
\<close>

theorem C1_WriteOut_ReadIn_counterexample:
  "map tokenTypeMask (tokens_of
     (RemoveFileTokens (UpdateToken ClTokenIndexDatabase_new ''f'' ''f'' 1 ''u'' 2
         \<lparr>beginLocation = \<lparr>line = 1, column = 1\<rparr>, endLocation = \<lparr>line = 1, column = 2\<rparr>\<rparr> [] ([], [])) 1)
     ''f'') = [2]
   \<and> map tokenTypeMask (tokens_of (snd (ReadIn 0 35 ClTokenIndexDatabase_new
       (wxInputStream_of (snd (WriteOut 0 35
          (RemoveFileTokens (UpdateToken ClTokenIndexDatabase_new ''f'' ''f'' 1 ''u'' 2
             \<lparr>beginLocation = \<lparr>line = 1, column = 1\<rparr>, endLocation = \<lparr>line = 1, column = 2\<rparr>\<rparr> [] ([], [])) 1))))))
     ''f'') = [0]
   \<and> map USR (tokens_of
     (UpdateToken ClTokenIndexDatabase_new [] ''anon'' 1 ''u'' 2
         \<lparr>beginLocation = \<lparr>line = 1, column = 1\<rparr>, endLocation = \<lparr>line = 1, column = 2\<rparr>\<rparr> [] ([], []))
     []) = [''u'']
   \<and> tokens_of (snd (ReadIn 0 35 ClTokenIndexDatabase_new
       (wxInputStream_of (snd (WriteOut 0 35
          (UpdateToken ClTokenIndexDatabase_new [] ''anon'' 1 ''u'' 2
             \<lparr>beginLocation = \<lparr>line = 1, column = 1\<rparr>, endLocation = \<lparr>line = 1, column = 2\<rparr>\<rparr> [] ([], [])))))))
     [] = []"
proof -
  let ?db = "RemoveFileTokens (UpdateToken ClTokenIndexDatabase_new ''f'' ''f'' 1 ''u'' 2
         \<lparr>beginLocation = \<lparr>line = 1, column = 1\<rparr>, endLocation = \<lparr>line = 1, column = 2\<rparr>\<rparr> [] ([], [])) 1"
  have db: "?db = \<lparr>m_FileDB = \<lparr>m_Tree = [], m_Data = []\<rparr>,
      m_pIndexTokenMap = \<lparr>m_Tree = [(''f'', 0)],
         m_Data = [\<lparr>identifier = ''f'', displayName = ''f'', USR = ''u'', tokenTypeMask = 2,
                    locationList = [], parentTokenList = [], scope = ([], [])\<rparr>]\<rparr>,
      m_pFileTokens = [], m_bModified = True\<rparr>"
    by (simp add: RemoveFileTokens_def UpdateToken_def ClTokenIndexDatabase_new_def
        ClIndexToken_new_def treemap_defs Format_d_1)
  have ser: "database_serializable ?db"
    unfolding db
    by (simp add: database_serializable_def token_serializable_def wire_string_def
        ClTreeMap_ids_valid_def treemap_defs)
  have toks: "tokens_of ?db ''f'' = [\<lparr>identifier = ''f'', displayName = ''f'', USR = ''u'',
      tokenTypeMask = 2, locationList = [], parentTokenList = [], scope = ([], [])\<rparr>]"
    unfolding db by (simp add: tokens_of_def treemap_defs)
  have a: "map tokenTypeMask (tokens_of (snd (ReadIn 0 35 ClTokenIndexDatabase_new
       (wxInputStream_of (snd (WriteOut 0 35 ?db))))) ''f'') = [0]"
    using tokens_of_ReadIn_WriteOut [OF ser, of 0 35 ClTokenIndexDatabase_new "''f''"]
    by (simp add: toks mask_after_ReadIn_def ClTokenType_Unknown_def)
  let ?db' = "UpdateToken ClTokenIndexDatabase_new [] ''anon'' 1 ''u'' 2
         \<lparr>beginLocation = \<lparr>line = 1, column = 1\<rparr>, endLocation = \<lparr>line = 1, column = 2\<rparr>\<rparr> [] ([], [])"
  have db': "?db' = \<lparr>m_FileDB = \<lparr>m_Tree = [], m_Data = []\<rparr>,
      m_pIndexTokenMap = \<lparr>m_Tree = [([], 0)],
         m_Data = [\<lparr>identifier = [], displayName = ''anon'', USR = ''u'', tokenTypeMask = 2,
                    locationList = [\<lparr>tokenType = 2, fileId = 1,
                      tokenRange = \<lparr>beginLocation = \<lparr>line = 1, column = 1\<rparr>,
                                    endLocation = \<lparr>line = 1, column = 2\<rparr>\<rparr>\<rparr>],
                    parentTokenList = [], scope = ([], [])\<rparr>]\<rparr>,
      m_pFileTokens = [(''1'', 0)], m_bModified = True\<rparr>"
    by (simp add: UpdateToken_def ClTokenIndexDatabase_new_def ClIndexToken_new_def treemap_defs
        Format_d_1)
  have ser': "database_serializable ?db'"
    unfolding db'
    by (simp add: database_serializable_def token_serializable_def wire_string_def
        ClTreeMap_ids_valid_def treemap_defs)
  have b: "tokens_of (snd (ReadIn 0 35 ClTokenIndexDatabase_new
       (wxInputStream_of (snd (WriteOut 0 35 ?db'))))) [] = []"
    using tokens_of_ReadIn_WriteOut [OF ser', of 0 35 ClTokenIndexDatabase_new "[]"] by simp
  have c: "map USR (tokens_of ?db' []) = [''u'']"
    unfolding db' by (simp add: tokens_of_def treemap_defs)
  show ?thesis
    using a b c by (simp add: toks)
qed


text \<open>
  C3 fails on the code. A stream that starts with \<open>XXXX\<close> instead of \<open>ClDb\<close>, with
  version 5, the versions of the running library and the end packet behind it, is read
  with success: the four bytes are read and never compared.
\<close>

theorem C3_ReadIn_accepts_bad_magic:
  "ReadIn major minor ClTokenIndexDatabase_new
     (wxInputStream_of (map of_char ''XXXX'' @ WriteInt 5 @ WriteInt major @ WriteInt minor @ WriteInt 0))
   = (ReadIn_true, ClTokenIndexDatabase_new)"
  using ReadIn_header [of "map of_char ''XXXX''" major minor ClTokenIndexDatabase_new 5 major minor "WriteInt 0"]
    ReadIn_packets_end [of "ClTokenIndexDatabase_Clear ClTokenIndexDatabase_new" "[]"]
  by (simp add: ClTokenIndexDatabase_Clear_def ClTokenIndexDatabase_new_def)

end
